theory Spec2Isabelle
  imports Complex_Main "HOL-Library.Multiset"
begin

section \<open>Python built-ins used by the handlers\<close>

text \<open>
  A Python \<open>str\<close> is modelled as a list of code points below 256 (\<^typ>\<open>string\<close>).
  \<open>str.strip()\<close> removes leading and trailing whitespace; on this range the
  whitespace code points are 9..13, 28..32, 133 and 160.
\<close>

definition py_isspace :: "char \<Rightarrow> bool" where
  "py_isspace c =
     (let n = (of_char c :: nat)
      in (9 \<le> n \<and> n \<le> 13) \<or> (28 \<le> n \<and> n \<le> 32) \<or> n = 133 \<or> n = 160)"

definition strip :: "string \<Rightarrow> string" where
  "strip s = rev (dropWhile py_isspace (rev (dropWhile py_isspace s)))"

text \<open>
  The exceptions that can leave a handler. Flask answers an uncaught exception with
  status 500; nothing has been committed at that point.
\<close>

datatype exn = ValueError | AttributeError | OverflowError | IntegrityError | OperationalError

text \<open>
  \<open>int(s)\<close> on a string, as CPython reads it: surrounding whitespace is skipped, then
  an optional sign, then decimal digits in which single underscores may separate
  digits. Anything else raises ValueError, here \<open>None\<close>. The whitespace \<open>int\<close> skips is
  not that of \<open>str.strip\<close>: of the code points below 128 it is 9..13 and 32 only (the
  separators 28..31 are not skipped), and above it is the whitespace 133 and 160. A
  string of more than 4300 digits, leading zeros counted, raises ValueError as well (the
  default limit on the conversion of strings to integers).
\<close>

definition int_isspace :: "char \<Rightarrow> bool" where
  "int_isspace c =
     (let n = (of_char c :: nat)
      in (9 \<le> n \<and> n \<le> 13) \<or> n = 32 \<or> n = 133 \<or> n = 160)"

definition int_strip :: "string \<Rightarrow> string" where
  "int_strip s = rev (dropWhile int_isspace (rev (dropWhile int_isspace s)))"

definition is_digit :: "char \<Rightarrow> bool" where
  "is_digit c = (let n = (of_char c :: nat) in 48 \<le> n \<and> n \<le> 57)"

definition digit_val :: "char \<Rightarrow> int" where
  "digit_val c = int (of_char c) - 48"

fun parse_digits :: "int \<Rightarrow> string \<Rightarrow> int option" where
  "parse_digits acc [] = Some acc"
| "parse_digits acc [c] = (if is_digit c then Some (acc * 10 + digit_val c) else None)"
| "parse_digits acc (c # d # cs) =
     (if is_digit c then parse_digits (acc * 10 + digit_val c) (d # cs)
      else if c = CHR ''_'' \<and> is_digit d then parse_digits (acc * 10 + digit_val d) cs
      else None)"

definition parse_unsigned :: "string \<Rightarrow> int option" where
  "parse_unsigned s =
     (if 4300 < length (filter is_digit s) then None
      else case s of [] \<Rightarrow> None
           | c # cs \<Rightarrow> if is_digit c then parse_digits (digit_val c) cs else None)"

definition py_int :: "string \<Rightarrow> int option" where
  "py_int s =
     (case int_strip s of
        [] \<Rightarrow> None
      | c # cs \<Rightarrow>
          if c = CHR ''+'' then parse_unsigned cs
          else if c = CHR ''-'' then map_option uminus (parse_unsigned cs)
          else parse_unsigned (c # cs))"

text \<open>\<open>str(n)\<close> for an integer: decimal digits, with a minus sign when negative.\<close>

fun nat_digits :: "nat \<Rightarrow> string" where
  "nat_digits n =
     (if n < 10 then [char_of (48 + n)] else nat_digits (n div 10) @ [char_of (48 + n mod 10)])"

definition py_str :: "int \<Rightarrow> string" where
  "py_str i = (if i < 0 then CHR ''-'' # nat_digits (nat (- i)) else nat_digits (nat i))"

section \<open>The tables (lines 20-47)\<close>

text \<open>
  A \<open>datetime\<close> is a point on a linear time axis, here an integer count of
  microseconds. A nullable column is an \<open>option\<close>. Each table is the list of its rows in
  insertion order.
\<close>

type_synonym timestamp = int

record user =
  u_id :: int
  u_username :: string
  u_password :: string
  u_is_admin :: bool

record poll =
  p_id :: int
  p_question :: string
  p_created_at :: timestamp
  p_expiry :: "timestamp option"
  p_active :: bool

record opt =
  o_id :: int
  o_text :: string
  o_poll_id :: int

record vote =
  v_id :: int
  v_user_id :: int
  v_poll_id :: int
  v_option_id :: int
  v_created_at :: timestamp

record db =
  users :: "user list"
  polls :: "poll list"
  options :: "opt list"
  votes :: "vote list"

definition empty_db :: db where
  "empty_db = \<lparr>users = [], polls = [], options = [], votes = []\<rparr>"

text \<open>
  An integer primary key that is not given on insert: SQLite takes 1 on an empty table
  and one more than the largest key otherwise.
\<close>

definition next_id :: "int list \<Rightarrow> int" where
  "next_id ids = (if ids = [] then 1 else Max (set ids) + 1)"

text \<open>
  \<open>Model.query.get(key)\<close>: the row with that primary key, or \<open>None\<close>. SQLite stores
  signed 64-bit integers; binding a Python integer outside that range raises
  OverflowError before any row is looked up.
\<close>

definition sqlite_int :: "int \<Rightarrow> bool" where
  "sqlite_int n = (- (2 ^ 63) \<le> n \<and> n < 2 ^ 63)"

definition query_get :: "('a \<Rightarrow> int) \<Rightarrow> 'a list \<Rightarrow> int \<Rightarrow> exn + 'a option" where
  "query_get key rows n =
     (if sqlite_int n then Inr (find (\<lambda>r. key r = n) rows) else Inl OverflowError)"

text \<open>The relationship \<open>poll.options\<close>: the option rows whose \<open>poll_id\<close> is the poll's.\<close>

definition poll_options :: "db \<Rightarrow> int \<Rightarrow> opt list" where
  "poll_options s pid = filter (\<lambda>ob. o_poll_id ob = pid) (options s)"

text \<open>\<open>Vote.query.filter_by(option_id=oid).count()\<close>\<close>

definition count_option_votes :: "db \<Rightarrow> int \<Rightarrow> nat" where
  "count_option_votes s oid = length (filter (\<lambda>v. v_option_id v = oid) (votes s))"

text \<open>The number of vote rows that reference a poll.\<close>

definition count_poll_votes :: "db \<Rightarrow> int \<Rightarrow> nat" where
  "count_poll_votes s pid = length (filter (\<lambda>v. v_poll_id v = pid) (votes s))"

section \<open>Requests and responses\<close>

text \<open>
  The handlers read one key of the session, \<open>user_id\<close>; the session is that key's value,
  if any. A form is the list of its (name, value) pairs in submission order.
\<close>

type_synonym session = "int option"
type_synonym form = "(string \<times> string) list"
type_synonym flash = "string \<times> string"

datatype http_method = GET | POST

definition form_get :: "form \<Rightarrow> string \<Rightarrow> string option" where
  "form_get f k = map_of f k"

definition form_get_default :: "form \<Rightarrow> string \<Rightarrow> string \<Rightarrow> string" where
  "form_get_default f k d = (case map_of f k of None \<Rightarrow> d | Some v \<Rightarrow> v)"

definition form_getlist :: "form \<Rightarrow> string \<Rightarrow> string list" where
  "form_getlist f k = map snd (filter (\<lambda>kv. fst kv = k) f)"

datatype endpoint =
  EP_login | EP_register | EP_index | EP_admin_dashboard | EP_create_poll | EP_poll_detail int

text \<open>
  What \<open>render_template\<close> is called with: the template and the values handed to it.
  The JSON payload of the results page repeats its labels and data and is left out.
\<close>

datatype page =
  RegisterPage
| IndexPage "poll list" timestamp "user option"
| AdminPage "poll list"
| CreatePollPage
| AdminResultsPage poll "string list" "nat list" "real list"
| PollPage poll bool bool

datatype response =
  Redirect endpoint
| Render page
| Abort404
| Attachment string string string
| Raised exn

record result =
  resp :: response
  flashes :: "flash list"
  db_after :: db

definition finish :: "response \<Rightarrow> flash list \<Rightarrow> db \<Rightarrow> result" where
  "finish r fl s = \<lparr>resp = r, flashes = fl, db_after = s\<rparr>"

section \<open>Helpers (lines 50-75)\<close>

text \<open>
  A decorated handler is the decorator applied to the function as written; the function
  as written carries the suffix \<open>_fn\<close>.
\<close>

definition falsy_session :: "session \<Rightarrow> bool" where
  "falsy_session sess = (case sess of None \<Rightarrow> True | Some uid \<Rightarrow> uid = 0)"

definition current_user :: "db \<Rightarrow> session \<Rightarrow> exn + user option" where
  "current_user s sess =
     (case sess of
        None \<Rightarrow> Inr None
      | Some uid \<Rightarrow> if uid = 0 then Inr None else query_get u_id (users s) uid)"

definition flash_login :: flash where
  "flash_login = (''Please login to continue.'', ''warning'')"

definition flash_admin :: flash where
  "flash_admin = (''Admin access required.'', ''warning'')"

definition login_required :: "db \<Rightarrow> session \<Rightarrow> result \<Rightarrow> result" where
  "login_required s sess r =
     (if falsy_session sess then finish (Redirect EP_login) [flash_login] s else r)"

definition admin_required :: "db \<Rightarrow> session \<Rightarrow> result \<Rightarrow> result" where
  "admin_required s sess r =
     (case current_user s sess of
        Inl e \<Rightarrow> finish (Raised e) [] s
      | Inr None \<Rightarrow> finish (Redirect EP_index) [flash_admin] s
      | Inr (Some u) \<Rightarrow>
          if \<not> u_is_admin u then finish (Redirect EP_index) [flash_admin] s else r)"

section \<open>Registration and the seeded administrator (lines 78-95, 267-272)\<close>

text \<open>
  \<open>generate_password_hash\<close> belongs to werkzeug; it is the parameter \<open>gph\<close>.
\<close>

definition register :: "(string \<Rightarrow> string) \<Rightarrow> db \<Rightarrow> http_method \<Rightarrow> form \<Rightarrow> result" where
  "register gph s meth f =
     (if meth = POST then
        (let username = strip (form_get_default f ''username'' '''');
             password = form_get_default f ''password'' ''''
         in if username = [] \<or> password = [] then
              finish (Redirect EP_register) [(''Provide username and password.'', ''warning'')] s
            else if find (\<lambda>u. u_username u = username) (users s) \<noteq> None then
              finish (Redirect EP_register) [(''Username already taken.'', ''warning'')] s
            else
              finish (Redirect EP_login)
                [(''Registration successful. Please login.'', ''success'')]
                (s\<lparr>users := users s @
                    [\<lparr>u_id = next_id (map u_id (users s)), u_username = username,
                      u_password = gph password, u_is_admin = False\<rparr>]\<rparr>))
      else finish (Render RegisterPage) [] s)"

definition seed_admin :: "(string \<Rightarrow> string) \<Rightarrow> db \<Rightarrow> db" where
  "seed_admin gph s =
     (if find u_is_admin (users s) = None then
        s\<lparr>users := users s @
            [\<lparr>u_id = next_id (map u_id (users s)), u_username = ''admin'',
              u_password = gph ''admin123'', u_is_admin = True\<rparr>]\<rparr>
      else s)"

section \<open>Listings (lines 119-132)\<close>

text \<open>
  \<open>order_by(Poll.created_at.desc())\<close>: rows with equal creation times come in no
  promised order; here they keep their table order.
\<close>

definition order_by_created_desc :: "poll list \<Rightarrow> poll list" where
  "order_by_created_desc ps = sort_key (\<lambda>p. - p_created_at p) ps"

definition index :: "db \<Rightarrow> session \<Rightarrow> timestamp \<Rightarrow> result" where
  "index s sess now =
     (let ps = order_by_created_desc (filter p_active (polls s))
      in case current_user s sess of
           Inl e \<Rightarrow> finish (Raised e) [] s
         | Inr cu \<Rightarrow> finish (Render (IndexPage ps now cu)) [] s)"

definition admin_dashboard_fn :: "db \<Rightarrow> result" where
  "admin_dashboard_fn s = finish (Render (AdminPage (order_by_created_desc (polls s)))) [] s"

definition admin_dashboard :: "db \<Rightarrow> session \<Rightarrow> result" where
  "admin_dashboard s sess = admin_required s sess (admin_dashboard_fn s)"

section \<open>Poll administration (lines 134-179)\<close>

text \<open>
  \<open>datetime.fromisoformat\<close> is the parameter \<open>fromisoformat\<close>: \<open>None\<close> where it raises.
  The column default \<open>datetime.utcnow\<close> is read when the row is inserted: \<open>stamp\<close>.
\<close>

definition add_option :: "int \<Rightarrow> db \<Rightarrow> string \<Rightarrow> db" where
  "add_option pid s opt_text =
     s\<lparr>options := options s @
         [\<lparr>o_id = next_id (map o_id (options s)), o_text = opt_text, o_poll_id = pid\<rparr>]\<rparr>"

text \<open>Lines 153-158: the poll row is committed, then one option row per text.\<close>

definition store_poll ::
  "db \<Rightarrow> string \<Rightarrow> timestamp option \<Rightarrow> bool \<Rightarrow> timestamp \<Rightarrow> string list \<Rightarrow> db"
where
  "store_poll s question expiry active stamp opts =
     (let pid = next_id (map p_id (polls s));
          s1 = s\<lparr>polls := polls s @
                 [\<lparr>p_id = pid, p_question = question, p_created_at = stamp,
                   p_expiry = expiry, p_active = active\<rparr>]\<rparr>
      in foldl (add_option pid) s1 opts)"

definition create_poll_fn ::
  "(string \<Rightarrow> timestamp option) \<Rightarrow> db \<Rightarrow> http_method \<Rightarrow> form \<Rightarrow> timestamp \<Rightarrow> result"
where
  "create_poll_fn fromisoformat s meth f stamp =
       (if meth = POST then
          (let question = strip (form_get_default f ''question'' '''');
               opts = map strip (filter (\<lambda>t. strip t \<noteq> []) (form_getlist f ''options''));
               expiry_raw = strip (form_get_default f ''expiry'' '''');
               active = (form_get_default f ''active'' ''on'' = ''on'')
           in if question = [] \<or> length opts < 2 then
                finish (Redirect EP_create_poll)
                  [(''Provide a question and at least two options.'', ''warning'')] s
              else if expiry_raw \<noteq> [] \<and> fromisoformat expiry_raw = None then
                finish (Redirect EP_create_poll)
                  [(''Invalid expiry format. Use the datetime picker.'', ''warning'')] s
              else
                (let expiry = (if expiry_raw \<noteq> [] then fromisoformat expiry_raw else None)
                 in finish (Redirect EP_admin_dashboard) [(''Poll created.'', ''success'')]
                      (store_poll s question expiry active stamp opts)))
        else finish (Render CreatePollPage) [] s)"

definition create_poll ::
  "(string \<Rightarrow> timestamp option) \<Rightarrow> db \<Rightarrow> session \<Rightarrow> http_method \<Rightarrow> form \<Rightarrow> timestamp \<Rightarrow> result"
where
  "create_poll fromisoformat s sess meth f stamp =
     admin_required s sess (create_poll_fn fromisoformat s meth f stamp)"

definition toggle_poll_fn :: "db \<Rightarrow> int \<Rightarrow> result" where
  "toggle_poll_fn s poll_id =
       (case query_get p_id (polls s) poll_id of
          Inl e \<Rightarrow> finish (Raised e) [] s
        | Inr None \<Rightarrow> finish Abort404 [] s
        | Inr (Some pl) \<Rightarrow>
            finish (Redirect EP_admin_dashboard) [(''Poll status updated.'', ''info'')]
              (s\<lparr>polls := map (\<lambda>q. if p_id q = p_id pl then q\<lparr>p_active := \<not> p_active q\<rparr> else q)
                              (polls s)\<rparr>))"

definition toggle_poll :: "db \<Rightarrow> session \<Rightarrow> int \<Rightarrow> result" where
  "toggle_poll s sess poll_id = admin_required s sess (toggle_poll_fn s poll_id)"

text \<open>
  Deleting a poll cascades along the two relationships: the poll's options are deleted,
  and with each option the votes whose \<open>option_id\<close> is that option's.
\<close>

definition cascade_delete :: "db \<Rightarrow> int \<Rightarrow> db" where
  "cascade_delete s pid =
     (let gone = map o_id (poll_options s pid)
      in s\<lparr>polls := filter (\<lambda>q. p_id q \<noteq> pid) (polls s),
           options := filter (\<lambda>ob. o_poll_id ob \<noteq> pid) (options s),
           votes := filter (\<lambda>v. v_option_id v \<notin> set gone) (votes s)\<rparr>)"

definition delete_poll_fn :: "db \<Rightarrow> int \<Rightarrow> result" where
  "delete_poll_fn s poll_id =
       (case query_get p_id (polls s) poll_id of
          Inl e \<Rightarrow> finish (Raised e) [] s
        | Inr None \<Rightarrow> finish Abort404 [] s
        | Inr (Some pl) \<Rightarrow>
            finish (Redirect EP_admin_dashboard) [(''Poll deleted.'', ''info'')]
              (cascade_delete s (p_id pl)))"

definition delete_poll :: "db \<Rightarrow> session \<Rightarrow> int \<Rightarrow> result" where
  "delete_poll s sess poll_id = admin_required s sess (delete_poll_fn s poll_id)"

section \<open>Results and export (lines 181-207)\<close>

text \<open>
  Lines 185-189 of \<open>admin_results\<close>. \<open>v/total\<close> divides two integers into a double,
  correctly rounded, and the product with 100 is rounded once more; the rounding of a
  real number to the nearest double is the parameter \<open>rnd\<close>. When \<open>total\<close> is 0 every
  percentage is the integer 0.
\<close>

definition result_labels :: "db \<Rightarrow> int \<Rightarrow> string list" where
  "result_labels s pid = map o_text (poll_options s pid)"

definition result_votes :: "db \<Rightarrow> int \<Rightarrow> nat list" where
  "result_votes s pid = map (\<lambda>ob. count_option_votes s (o_id ob)) (poll_options s pid)"

definition result_total :: "nat list \<Rightarrow> nat" where
  "result_total vs = (let t = sum_list vs in if t \<noteq> 0 then t else 0)"

definition result_percentages :: "(real \<Rightarrow> real) \<Rightarrow> nat list \<Rightarrow> real list" where
  "result_percentages rnd vs =
     (let total = result_total vs
      in map (\<lambda>v. if total > 0 then rnd (rnd (real v / real total) * 100) else 0) vs)"


definition admin_results_fn :: "(real \<Rightarrow> real) \<Rightarrow> db \<Rightarrow> int \<Rightarrow> result" where
  "admin_results_fn rnd s poll_id =
       (case query_get p_id (polls s) poll_id of
          Inl e \<Rightarrow> finish (Raised e) [] s
        | Inr None \<Rightarrow> finish Abort404 [] s
        | Inr (Some pl) \<Rightarrow>
            (let labels = result_labels s (p_id pl);
                 vs = result_votes s (p_id pl);
                 percentages = result_percentages rnd vs
             in finish (Render (AdminResultsPage pl labels vs percentages)) [] s))"

definition admin_results :: "(real \<Rightarrow> real) \<Rightarrow> db \<Rightarrow> session \<Rightarrow> int \<Rightarrow> result" where
  "admin_results rnd s sess poll_id = admin_required s sess (admin_results_fn rnd s poll_id)"

text \<open>
  \<open>csv.writer\<close> with its default dialect: a field is written through \<open>str\<close>; it is put
  in double quotes, with each double quote doubled, when it holds a comma, a double
  quote, a carriage return or a line feed; fields are joined by commas and the row ends
  with carriage return and line feed. A row of one empty field is written as two double
  quotes.
\<close>

datatype cell = CInt int | CStr string

definition cell_text :: "cell \<Rightarrow> string" where
  "cell_text c = (case c of CInt i \<Rightarrow> py_str i | CStr t \<Rightarrow> t)"

definition csv_special :: "char \<Rightarrow> bool" where
  "csv_special c = (c = CHR '','' \<or> c = CHR 0x22 \<or> c = CHR 0x0D \<or> c = CHR 0x0A)"

definition csv_field :: "string \<Rightarrow> string" where
  "csv_field t =
     (if \<exists>c \<in> set t. csv_special c
      then [CHR 0x22] @ concat (map (\<lambda>c. if c = CHR 0x22 then [c, c] else [c]) t) @ [CHR 0x22]
      else t)"

fun join_fields :: "string list \<Rightarrow> string" where
  "join_fields [] = []"
| "join_fields [t] = t"
| "join_fields (t # u # us) = t @ CHR '','' # join_fields (u # us)"

definition writerow :: "cell list \<Rightarrow> string" where
  "writerow cells =
     (let line = join_fields (map (csv_field \<circ> cell_text) cells)
      in (if cells \<noteq> [] \<and> line = [] then [CHR 0x22, CHR 0x22] else line) @ [CHR 0x0D, CHR 0x0A])"

definition csv_header :: "cell list" where
  "csv_header =
     [CStr ''poll_id'', CStr ''poll_question'', CStr ''option_id'', CStr ''option_text'',
      CStr ''votes'']"

definition export_rows :: "db \<Rightarrow> poll \<Rightarrow> cell list list" where
  "export_rows s pl =
     csv_header #
     map (\<lambda>ob. [CInt (p_id pl), CStr (p_question pl), CInt (o_id ob), CStr (o_text ob),
                 CInt (int (count_option_votes s (o_id ob)))])
       (poll_options s (p_id pl))"

definition export_poll_csv_fn :: "db \<Rightarrow> int \<Rightarrow> result" where
  "export_poll_csv_fn s poll_id =
       (case query_get p_id (polls s) poll_id of
          Inl e \<Rightarrow> finish (Raised e) [] s
        | Inr None \<Rightarrow> finish Abort404 [] s
        | Inr (Some pl) \<Rightarrow>
            finish
              (Attachment (concat (map writerow (export_rows s pl))) ''text/csv''
                 (''attachment; filename=poll_'' @ py_str (p_id pl) @ ''_results.csv''))
              [] s)"

definition export_poll_csv :: "db \<Rightarrow> session \<Rightarrow> int \<Rightarrow> result" where
  "export_poll_csv s sess poll_id = admin_required s sess (export_poll_csv_fn s poll_id)"

section \<open>Voting (lines 210-246)\<close>

definition flash_inactive :: flash where
  "flash_inactive = (''This poll is currently inactive.'', ''warning'')"

definition flash_closed :: flash where
  "flash_closed = (''This poll is closed; you cannot vote.'', ''warning'')"

definition flash_voted :: flash where
  "flash_voted = (''You have already voted in this poll.'', ''info'')"

definition flash_choose :: flash where
  "flash_choose = (''Choose an option.'', ''warning'')"

definition flash_invalid :: flash where
  "flash_invalid = (''Invalid option selected.'', ''danger'')"

definition flash_not_recorded :: flash where
  "flash_not_recorded = (''Could not record vote. You may have already voted.'', ''danger'')"

definition flash_recorded :: flash where
  "flash_recorded = (''Vote recorded. Thank you!'', ''success'')"

text \<open>Line 215.\<close>

definition is_expired :: "poll \<Rightarrow> timestamp \<Rightarrow> bool" where
  "is_expired pl now = (case p_expiry pl of None \<Rightarrow> False | Some e \<Rightarrow> e < now)"

text \<open>
  \<open>db.session.add(vote); db.session.commit()\<close>: the storage layer inserts the row
  (user, poll, option) into the table as it stands when the insert arrives. The
  constraint \<open>uix_user_poll\<close> of line 47 refuses a row whose (user_id, poll_id) pair is
  already there; \<open>fault\<close> stands for any other failure of the storage layer.
\<close>

definition insert_vote :: "bool \<Rightarrow> db \<Rightarrow> int \<times> int \<times> int \<Rightarrow> timestamp \<Rightarrow> exn + db" where
  "insert_vote fault s nv stamp =
     (case nv of (uid, pid, oid) \<Rightarrow>
        if \<exists>v \<in> set (votes s). v_user_id v = uid \<and> v_poll_id v = pid then Inl IntegrityError
        else if fault then Inl OperationalError
        else Inr (s\<lparr>votes := votes s @
                    [\<lparr>v_id = next_id (map v_id (votes s)), v_user_id = uid, v_poll_id = pid,
                      v_option_id = oid, v_created_at = stamp\<rparr>]\<rparr>))"

text \<open>
  Lines 213-236: everything the handler does before the \<open>try\<close>. \<open>Inl\<close> is a request
  that ends here (a response, or an exception); \<open>Inr\<close> carries the flashes so far and
  the Vote object of line 236.
\<close>

definition poll_detail_check ::
  "db \<Rightarrow> session \<Rightarrow> http_method \<Rightarrow> form \<Rightarrow> int \<Rightarrow> timestamp
     \<Rightarrow> result + flash list \<times> (int \<times> int \<times> int)"
where
  "poll_detail_check s sess meth f poll_id now =
     (case query_get p_id (polls s) poll_id of
        Inl e \<Rightarrow> Inl (finish (Raised e) [] s)
      | Inr None \<Rightarrow> Inl (finish Abort404 [] s)
      | Inr (Some pl) \<Rightarrow>
          (let expired = is_expired pl now;
               fl = (if \<not> p_active pl then [flash_inactive] else [])
           in case current_user s sess of
                Inl e \<Rightarrow> Inl (finish (Raised e) fl s)
              | Inr None \<Rightarrow> Inl (finish (Raised AttributeError) fl s)
              | Inr (Some usr) \<Rightarrow>
                  (let existing =
                         find (\<lambda>v. v_user_id v = u_id usr \<and> v_poll_id v = p_id pl) (votes s)
                   in if meth = POST then
                        (if expired \<or> \<not> p_active pl then
                           Inl (finish (Redirect EP_index) (fl @ [flash_closed]) s)
                         else if existing \<noteq> None then
                           Inl (finish (Redirect EP_index) (fl @ [flash_voted]) s)
                         else
                           (case form_get f ''option'' of
                              None \<Rightarrow>
                                Inl (finish (Redirect (EP_poll_detail (p_id pl)))
                                       (fl @ [flash_choose]) s)
                            | Some option_id \<Rightarrow>
                                if option_id = [] then
                                  Inl (finish (Redirect (EP_poll_detail (p_id pl)))
                                         (fl @ [flash_choose]) s)
                                else
                                  (case py_int option_id of
                                     None \<Rightarrow> Inl (finish (Raised ValueError) fl s)
                                   | Some n \<Rightarrow>
                                       (case query_get o_id (options s) n of
                                          Inl e \<Rightarrow> Inl (finish (Raised e) fl s)
                                        | Inr None \<Rightarrow>
                                            Inl (finish (Redirect (EP_poll_detail (p_id pl)))
                                                   (fl @ [flash_invalid]) s)
                                        | Inr (Some ob) \<Rightarrow>
                                            if o_poll_id ob \<noteq> p_id pl then
                                              Inl (finish (Redirect (EP_poll_detail (p_id pl)))
                                                     (fl @ [flash_invalid]) s)
                                            else Inr (fl, (u_id usr, p_id pl, o_id ob))))))
                      else
                        Inl (finish (Render (PollPage pl expired (existing \<noteq> None))) fl s))))"

text \<open>
  Lines 237-245: the insert inside \<open>try\<close>. \<open>except Exception\<close> catches whatever the
  insert raises, rolls back and answers with a redirect.
\<close>

definition poll_detail_commit ::
  "db \<Rightarrow> flash list \<Rightarrow> int \<times> int \<times> int \<Rightarrow> timestamp \<Rightarrow> bool \<Rightarrow> result"
where
  "poll_detail_commit s fl nv stamp fault =
     (case insert_vote fault s nv stamp of
        Inl e \<Rightarrow> finish (Redirect EP_index) (fl @ [flash_not_recorded]) s
      | Inr s' \<Rightarrow> finish (Redirect EP_index) (fl @ [flash_recorded]) s')"

text \<open>
  The handler as one request served alone: the insert arrives at the table the checks
  were made on.
\<close>

definition poll_detail_fn ::
  "db \<Rightarrow> session \<Rightarrow> http_method \<Rightarrow> form \<Rightarrow> int \<Rightarrow> timestamp \<Rightarrow> timestamp \<Rightarrow> bool \<Rightarrow> result"
where
  "poll_detail_fn s sess meth f poll_id now stamp fault =
       (case poll_detail_check s sess meth f poll_id now of
          Inl r \<Rightarrow> r
        | Inr (fl, nv) \<Rightarrow> poll_detail_commit s fl nv stamp fault)"

definition poll_detail ::
  "db \<Rightarrow> session \<Rightarrow> http_method \<Rightarrow> form \<Rightarrow> int \<Rightarrow> timestamp \<Rightarrow> timestamp \<Rightarrow> bool \<Rightarrow> result"
where
  "poll_detail s sess meth f poll_id now stamp fault =
     login_required s sess (poll_detail_fn s sess meth f poll_id now stamp fault)"

section \<open>The index template\<close>

text \<open>
  Modelled from the spec: the template \<open>index.html\<close>, which \<open>index\<close> renders, is not
  among the sources. Line 124 leaves the filtering of expired polls to it (``filter out
  expired on template side by passing now''), and the spec has the page ``list active,
  non-expired polls for voting'', a poll being expired when the current time is past its
  stored expiry. \<open>index_listing\<close> is the list of polls the rendered page shows: the
  polls handed to the template that are not expired at the \<open>now\<close> handed to it, in the
  order they were handed over.
\<close>

definition index_listing :: "result \<Rightarrow> poll list" where
  "index_listing r =
     (case resp r of
        Render (IndexPage ps now cu) \<Rightarrow> filter (\<lambda>p. \<not> is_expired p now) ps
      | _ \<Rightarrow> [])"

section \<open>Reachable database states\<close>

text \<open>
  The database starts as the empty tables with the seeded administrator
  (lines 274-277). Five handlers write to it; \<open>login\<close>, \<open>logout\<close>, \<open>index\<close>,
  \<open>admin_dashboard\<close>, \<open>admin_results\<close>, \<open>export_poll_csv\<close> and \<open>my_votes\<close> only read.
  \<open>reachable\<close> serves one request after the other, each with any session, form, clock
  reading and outcome of the library functions.
\<close>

inductive reachable :: "db \<Rightarrow> bool" where
  r_start: "reachable (seed_admin gph empty_db)"
| r_register: "reachable s \<Longrightarrow> reachable (db_after (register gph s meth f))"
| r_create: "reachable s \<Longrightarrow> reachable (db_after (create_poll fromisoformat s sess meth f stamp))"
| r_toggle: "reachable s \<Longrightarrow> reachable (db_after (toggle_poll s sess poll_id))"
| r_delete: "reachable s \<Longrightarrow> reachable (db_after (delete_poll s sess poll_id))"
| r_vote: "reachable s \<Longrightarrow> reachable (db_after (poll_detail s sess meth f poll_id now stamp fault))"

text \<open>
  \<open>reachable_conc\<close> also lets requests overlap: a vote request may make its checks
  (lines 213-236) on one state of the database and have its insert (lines 237-245)
  arrive at another one, after other requests have written.
\<close>

inductive reachable_conc :: "db \<Rightarrow> bool" where
  c_start: "reachable_conc (seed_admin gph empty_db)"
| c_register: "reachable_conc s \<Longrightarrow> reachable_conc (db_after (register gph s meth f))"
| c_create:
    "reachable_conc s \<Longrightarrow> reachable_conc (db_after (create_poll fromisoformat s sess meth f stamp))"
| c_toggle: "reachable_conc s \<Longrightarrow> reachable_conc (db_after (toggle_poll s sess poll_id))"
| c_delete: "reachable_conc s \<Longrightarrow> reachable_conc (db_after (delete_poll s sess poll_id))"
| c_vote:
    "reachable_conc s \<Longrightarrow>
     reachable_conc (db_after (poll_detail s sess meth f poll_id now stamp fault))"
| c_late_insert:
    "reachable_conc s0 \<Longrightarrow> reachable_conc s \<Longrightarrow> \<not> falsy_session sess \<Longrightarrow>
     poll_detail_check s0 sess meth f poll_id now = Inr (fl, nv) \<Longrightarrow>
     reachable_conc (db_after (poll_detail_commit s fl nv stamp fault))"

text \<open>Invariants of the tables.\<close>

definition votes_unique :: "db \<Rightarrow> bool" where
  "votes_unique s = distinct (map (\<lambda>v. (v_user_id v, v_poll_id v)) (votes s))"

definition option_ids_distinct :: "db \<Rightarrow> bool" where
  "option_ids_distinct s = distinct (map o_id (options s))"

definition votes_match_options :: "db \<Rightarrow> bool" where
  "votes_match_options s =
     (\<forall>v \<in> set (votes s). \<exists>ob \<in> set (options s).
        o_id ob = v_option_id v \<and> o_poll_id ob = v_poll_id v)"

definition options_have_polls :: "db \<Rightarrow> bool" where
  "options_have_polls s = (\<forall>ob \<in> set (options s). o_poll_id ob \<in> p_id ` set (polls s))"

definition tables_ok :: "db \<Rightarrow> bool" where
  "tables_ok s = (option_ids_distinct s \<and> votes_match_options s \<and> options_have_polls s)"

section \<open>Example data\<close>

text \<open>
  Three users (an administrator, then two voters) and three polls: poll 1 is open,
  poll 2 is inactive, poll 3 is active with an expiry of 400. The two voters have voted
  in poll 1, the first for Red and the second for Blue.
\<close>

definition ex_db :: db where
  "ex_db =
     \<lparr>users =
        [\<lparr>u_id = 1, u_username = ''admin'', u_password = ''x'', u_is_admin = True\<rparr>,
         \<lparr>u_id = 2, u_username = ''ann'', u_password = ''y'', u_is_admin = False\<rparr>,
         \<lparr>u_id = 3, u_username = ''ben'', u_password = ''z'', u_is_admin = False\<rparr>],
      polls =
        [\<lparr>p_id = 1, p_question = ''Best color?'', p_created_at = 100, p_expiry = None,
          p_active = True\<rparr>,
         \<lparr>p_id = 2, p_question = ''Best pet?'', p_created_at = 200, p_expiry = None,
          p_active = False\<rparr>,
         \<lparr>p_id = 3, p_question = ''Best day?'', p_created_at = 300, p_expiry = Some 400,
          p_active = True\<rparr>],
      options =
        [\<lparr>o_id = 1, o_text = ''Red'', o_poll_id = 1\<rparr>,
         \<lparr>o_id = 2, o_text = ''Blue'', o_poll_id = 1\<rparr>,
         \<lparr>o_id = 3, o_text = ''Cat'', o_poll_id = 2\<rparr>,
         \<lparr>o_id = 4, o_text = ''Dog'', o_poll_id = 2\<rparr>,
         \<lparr>o_id = 5, o_text = ''Mon'', o_poll_id = 3\<rparr>,
         \<lparr>o_id = 6, o_text = ''Tue'', o_poll_id = 3\<rparr>],
      votes =
        [\<lparr>v_id = 1, v_user_id = 2, v_poll_id = 1, v_option_id = 1, v_created_at = 150\<rparr>,
         \<lparr>v_id = 2, v_user_id = 3, v_poll_id = 1, v_option_id = 2, v_created_at = 160\<rparr>]\<rparr>"

text \<open>
  A short run from the start: the administrator creates the poll ``Best color?'' with
  the options Red and Blue, and then votes for Red.
\<close>

definition ex_hash :: "string \<Rightarrow> string" where
  "ex_hash pw = ''hash:'' @ pw"

definition ex_fromisoformat :: "string \<Rightarrow> timestamp option" where
  "ex_fromisoformat t = (if t = ''1970-01-01T00:00:00'' then Some 0 else None)"

definition run0 :: db where
  "run0 = seed_admin ex_hash empty_db"

definition run1 :: db where
  "run1 =
     db_after
       (create_poll ex_fromisoformat run0 (Some 1) POST
          [(''question'', ''Best color?''), (''options'', '' Red''), (''options'', ''  ''),
           (''options'', ''Blue '')]
          100)"

definition run2 :: db where
  "run2 = db_after (poll_detail run1 (Some 1) POST [(''option'', ''1'')] 1 120 121 False)"

text \<open>
  Another run from \<open>run1\<close>, with two requests that overlap: the administrator's vote
  for Red makes its checks on \<open>run1\<close>; before its insert arrives, poll 1 is deleted
  (\<open>run_deleted\<close>); then the insert arrives (\<open>run_orphan\<close>).
\<close>

definition run_deleted :: db where
  "run_deleted = db_after (delete_poll run1 (Some 1) 1)"

definition run_orphan :: db where
  "run_orphan = db_after (poll_detail_commit run_deleted [] (1, 1, 1) 130 False)"

section \<open>Basic facts\<close>

lemma finish_sel [simp]:
  "resp (finish r fl s) = r" "flashes (finish r fl s) = fl" "db_after (finish r fl s) = s"
  by (simp_all add: finish_def)

lemma login_required_ok: "\<not> falsy_session sess \<Longrightarrow> login_required s sess r = r"
  by (simp add: login_required_def)

lemma next_id_gt: "i \<in> set ids \<Longrightarrow> i < next_id ids"
proof -
  assume a: "i \<in> set ids"
  then have "i \<le> Max (set ids)" by (intro Max_ge) auto
  with a show ?thesis by (auto simp: next_id_def)
qed

lemma admin_required_ok:
  "current_user s sess = Inr (Some adm) \<Longrightarrow> u_is_admin adm \<Longrightarrow> admin_required s sess r = r"
  by (simp add: admin_required_def)

lemma admin_required_cases:
  "admin_required s sess r = r \<or> db_after (admin_required s sess r) = s"
  by (auto simp: admin_required_def split: sum.splits option.splits)

lemma login_required_cases:
  "login_required s sess r = r \<or> db_after (login_required s sess r) = s"
  by (auto simp: login_required_def)

lemma register_db:
  "db_after (register gph s meth f) = s
   \<or> (\<exists>u. db_after (register gph s meth f) = s\<lparr>users := users s @ [u]\<rparr>)"
  by (auto simp: register_def Let_def)

lemma seed_admin_db:
  "seed_admin gph s = s \<or> (\<exists>u. seed_admin gph s = s\<lparr>users := users s @ [u]\<rparr>)"
  by (auto simp: seed_admin_def)

lemma create_poll_db:
  "db_after (create_poll fi s sess meth f stamp) = s
   \<or> (\<exists>q e a ts. db_after (create_poll fi s sess meth f stamp) = store_poll s q e a stamp ts)"
proof -
  have "db_after (create_poll_fn fi s meth f stamp) = s
   \<or> (\<exists>q e a ts. db_after (create_poll_fn fi s meth f stamp) = store_poll s q e a stamp ts)"
  proof (cases "db_after (create_poll_fn fi s meth f stamp) = s")
    case True then show ?thesis by simp
  next
    case False
    then have "db_after (create_poll_fn fi s meth f stamp) =
        store_poll s (strip (form_get_default f ''question'' []))
          (if strip (form_get_default f ''expiry'' []) \<noteq> []
           then fi (strip (form_get_default f ''expiry'' [])) else None)
          (form_get_default f ''active'' ''on'' = ''on'') stamp
          (map strip (filter (\<lambda>t. strip t \<noteq> []) (form_getlist f ''options'')))"
      unfolding create_poll_fn_def Let_def by (auto split: if_splits)
    then show ?thesis by blast
  qed
  then show ?thesis
    using admin_required_cases[of s sess "create_poll_fn fi s meth f stamp"]
    unfolding create_poll_def by metis
qed

lemma toggle_poll_db:
  "db_after (toggle_poll s sess poll_id) = s
   \<or> (\<exists>g. (\<forall>q. p_id (g q) = p_id q)
        \<and> db_after (toggle_poll s sess poll_id) = s\<lparr>polls := map g (polls s)\<rparr>)"
proof -
  have "db_after (toggle_poll_fn s poll_id) = s \<or> (\<exists>g. (\<forall>q. p_id (g q) = p_id q)
        \<and> db_after (toggle_poll_fn s poll_id) = s\<lparr>polls := map g (polls s)\<rparr>)"
  proof (cases "query_get p_id (polls s) poll_id")
    case (Inl e) then show ?thesis by (simp add: toggle_poll_fn_def)
  next
    case (Inr qo)
    show ?thesis
    proof (cases qo)
      case None with Inr show ?thesis by (simp add: toggle_poll_fn_def)
    next
      case (Some pl)
      let ?g = "\<lambda>q. if p_id q = p_id pl then q\<lparr>p_active := \<not> p_active q\<rparr> else q"
      have "(\<forall>q. p_id (?g q) = p_id q)
          \<and> db_after (toggle_poll_fn s poll_id) = s\<lparr>polls := map ?g (polls s)\<rparr>"
        using Inr Some by (simp add: toggle_poll_fn_def)
      then show ?thesis by (intro disjI2 exI[of _ ?g])
    qed
  qed
  then show ?thesis
    using admin_required_cases[of s sess "toggle_poll_fn s poll_id"]
    unfolding toggle_poll_def by auto
qed

lemma delete_poll_db:
  "db_after (delete_poll s sess poll_id) = s
   \<or> (\<exists>p. db_after (delete_poll s sess poll_id) = cascade_delete s p)"
proof -
  have "db_after (delete_poll_fn s poll_id) = s
     \<or> (\<exists>p. db_after (delete_poll_fn s poll_id) = cascade_delete s p)"
    by (auto simp: delete_poll_fn_def split: sum.splits option.splits)
  then show ?thesis
    using admin_required_cases[of s sess "delete_poll_fn s poll_id"]
    unfolding delete_poll_def by auto
qed

lemma insert_vote_Inr:
  "insert_vote fault s (uid, pid, oid) stamp = Inr s' \<Longrightarrow>
     (\<forall>v \<in> set (votes s). \<not> (v_user_id v = uid \<and> v_poll_id v = pid))
     \<and> s' = s\<lparr>votes := votes s @
                [\<lparr>v_id = next_id (map v_id (votes s)), v_user_id = uid, v_poll_id = pid,
                  v_option_id = oid, v_created_at = stamp\<rparr>]\<rparr>"
  by (auto simp: insert_vote_def split: if_splits)

lemma commit_db:
  "db_after (poll_detail_commit s fl (uid, pid, oid) stamp fault) = s
   \<or> ((\<forall>v \<in> set (votes s). \<not> (v_user_id v = uid \<and> v_poll_id v = pid))
       \<and> (\<exists>v. v_user_id v = uid \<and> v_poll_id v = pid \<and> v_option_id v = oid
             \<and> db_after (poll_detail_commit s fl (uid, pid, oid) stamp fault) =
                 s\<lparr>votes := votes s @ [v]\<rparr>))"
proof (cases "insert_vote fault s (uid, pid, oid) stamp")
  case (Inl e)
  then show ?thesis by (simp add: poll_detail_commit_def)
next
  case (Inr s')
  let ?v = "\<lparr>v_id = next_id (map v_id (votes s)), v_user_id = uid, v_poll_id = pid,
                  v_option_id = oid, v_created_at = stamp\<rparr>"
  from insert_vote_Inr[OF Inr] have a: "\<forall>v \<in> set (votes s). \<not> (v_user_id v = uid \<and> v_poll_id v = pid)"
    and b: "s' = s\<lparr>votes := votes s @ [?v]\<rparr>" by auto
  have "v_user_id ?v = uid \<and> v_poll_id ?v = pid \<and> v_option_id ?v = oid
      \<and> db_after (poll_detail_commit s fl (uid, pid, oid) stamp fault) = s\<lparr>votes := votes s @ [?v]\<rparr>"
    using Inr b by (simp add: poll_detail_commit_def)
  with a show ?thesis by blast
qed

lemma check_Inl:
  "poll_detail_check s sess meth f poll_id now = Inl r \<Longrightarrow> db_after r = s"
  by (auto simp: poll_detail_check_def Let_def split: sum.splits option.splits if_splits)

lemma check_Inr:
  assumes "poll_detail_check s sess meth f poll_id now = Inr (fl, (uid, pid, oid))"
  shows "\<exists>ob \<in> set (options s). o_id ob = oid \<and> o_poll_id ob = pid"
  using assms
  by (auto simp: poll_detail_check_def query_get_def Let_def find_Some_iff
      split: sum.splits option.splits if_splits)

lemma poll_detail_db:
  "db_after (poll_detail s sess meth f poll_id now stamp fault) = s
   \<or> (\<exists>v. (\<forall>w \<in> set (votes s). \<not> (v_user_id w = v_user_id v \<and> v_poll_id w = v_poll_id v))
        \<and> (\<exists>ob \<in> set (options s). o_id ob = v_option_id v \<and> o_poll_id ob = v_poll_id v)
        \<and> db_after (poll_detail s sess meth f poll_id now stamp fault) =
            s\<lparr>votes := votes s @ [v]\<rparr>)"
  (is "?P (poll_detail s sess meth f poll_id now stamp fault)")
proof -
  have "?P (poll_detail_fn s sess meth f poll_id now stamp fault)"
  proof (cases "poll_detail_check s sess meth f poll_id now")
    case (Inl r)
    with check_Inl[OF Inl] show ?thesis by (simp add: poll_detail_fn_def)
  next
    case (Inr x)
    obtain fl uid pid oid where x: "x = (fl, (uid, pid, oid))" by (cases x) auto
    from check_Inr[OF Inr[unfolded x]] obtain ob where
      ob: "ob \<in> set (options s)" "o_id ob = oid" "o_poll_id ob = pid" by auto
    have eq: "poll_detail_fn s sess meth f poll_id now stamp fault =
            poll_detail_commit s fl (uid, pid, oid) stamp fault"
      using Inr x by (simp add: poll_detail_fn_def)
    from commit_db[of s fl uid pid oid stamp fault] show ?thesis
    proof
      assume "db_after (poll_detail_commit s fl (uid, pid, oid) stamp fault) = s"
      then show ?thesis using eq by simp
    next
      assume "(\<forall>v \<in> set (votes s). \<not> (v_user_id v = uid \<and> v_poll_id v = pid))
       \<and> (\<exists>v. v_user_id v = uid \<and> v_poll_id v = pid \<and> v_option_id v = oid
             \<and> db_after (poll_detail_commit s fl (uid, pid, oid) stamp fault) =
                 s\<lparr>votes := votes s @ [v]\<rparr>)"
      then obtain v where v: "\<forall>w \<in> set (votes s). \<not> (v_user_id w = uid \<and> v_poll_id w = pid)"
        "v_user_id v = uid" "v_poll_id v = pid" "v_option_id v = oid"
        "db_after (poll_detail_commit s fl (uid, pid, oid) stamp fault) = s\<lparr>votes := votes s @ [v]\<rparr>"
        by blast
      have "(\<forall>w \<in> set (votes s). \<not> (v_user_id w = v_user_id v \<and> v_poll_id w = v_poll_id v))
        \<and> (\<exists>ob \<in> set (options s). o_id ob = v_option_id v \<and> o_poll_id ob = v_poll_id v)
        \<and> db_after (poll_detail_fn s sess meth f poll_id now stamp fault) = s\<lparr>votes := votes s @ [v]\<rparr>"
        using v ob eq by auto
      then show ?thesis by blast
    qed
  qed
  then show ?thesis
    using login_required_cases[of s sess "poll_detail_fn s sess meth f poll_id now stamp fault"]
    unfolding poll_detail_def by auto
qed

lemma add_option_sel [simp]:
  "users (add_option pid s t) = users s" "polls (add_option pid s t) = polls s"
  "votes (add_option pid s t) = votes s"
  "options (add_option pid s t) =
     options s @ [\<lparr>o_id = next_id (map o_id (options s)), o_text = t, o_poll_id = pid\<rparr>]"
  by (simp_all add: add_option_def)

lemma foldl_add_option_sel [simp]:
  "users (foldl (add_option pid) s ts) = users s"
  "polls (foldl (add_option pid) s ts) = polls s"
  "votes (foldl (add_option pid) s ts) = votes s"
  by (induction ts arbitrary: s) simp_all

lemma foldl_add_option_options:
  "\<exists>new. options (foldl (add_option pid) s ts) = options s @ new
      \<and> map o_text new = ts \<and> (\<forall>ob \<in> set new. o_poll_id ob = pid)
      \<and> (distinct (map o_id (options s)) \<longrightarrow> distinct (map o_id (options s @ new)))"
proof (induction ts arbitrary: s)
  case Nil
  then show ?case by simp
next
  case (Cons t ts)
  let ?ob = "\<lparr>o_id = next_id (map o_id (options s)), o_text = t, o_poll_id = pid\<rparr>"
  from Cons[of "add_option pid s t"] obtain new where
    n: "options (foldl (add_option pid) (add_option pid s t) ts) = (options s @ [?ob]) @ new"
       "map o_text new = ts" "\<forall>ob \<in> set new. o_poll_id ob = pid"
       "distinct (map o_id (options s @ [?ob])) \<longrightarrow> distinct (map o_id ((options s @ [?ob]) @ new))"
    by auto
  have fresh: "distinct (map o_id (options s)) \<longrightarrow> distinct (map o_id (options s @ [?ob]))"
    using next_id_gt[of _ "map o_id (options s)"] by auto
  have "options (foldl (add_option pid) s (t # ts)) = options s @ (?ob # new)
      \<and> map o_text (?ob # new) = t # ts \<and> (\<forall>ob \<in> set (?ob # new). o_poll_id ob = pid)
      \<and> (distinct (map o_id (options s)) \<longrightarrow> distinct (map o_id (options s @ (?ob # new))))"
    using n fresh by simp
  then show ?case by (intro exI[of _ "?ob # new"])
qed

lemma store_poll_sel [simp]:
  "users (store_poll s q e a st ts) = users s"
  "votes (store_poll s q e a st ts) = votes s"
  "polls (store_poll s q e a st ts) =
     polls s @ [\<lparr>p_id = next_id (map p_id (polls s)), p_question = q, p_created_at = st,
                 p_expiry = e, p_active = a\<rparr>]"
  by (simp_all add: store_poll_def Let_def)

lemma store_poll_options:
  "\<exists>new. options (store_poll s q e a st ts) = options s @ new
      \<and> map o_text new = ts \<and> (\<forall>ob \<in> set new. o_poll_id ob = next_id (map p_id (polls s)))
      \<and> (distinct (map o_id (options s)) \<longrightarrow> distinct (map o_id (options s @ new)))"
  using foldl_add_option_options[of "next_id (map p_id (polls s))"
      "s\<lparr>polls := polls s @ [\<lparr>p_id = next_id (map p_id (polls s)), p_question = q,
            p_created_at = st, p_expiry = e, p_active = a\<rparr>]\<rparr>" ts]
  by (simp add: store_poll_def Let_def)

lemma cascade_delete_sel [simp]:
  "users (cascade_delete s p) = users s"
  "polls (cascade_delete s p) = filter (\<lambda>q. p_id q \<noteq> p) (polls s)"
  "options (cascade_delete s p) = filter (\<lambda>ob. o_poll_id ob \<noteq> p) (options s)"
  "votes (cascade_delete s p) =
     filter (\<lambda>v. v_option_id v \<notin> o_id ` set (poll_options s p)) (votes s)"
  by (simp_all add: cascade_delete_def Let_def)

subsection \<open>votes_unique\<close>

lemma votes_unique_append:
  assumes "votes_unique s"
    and "\<forall>w \<in> set (votes s). \<not> (v_user_id w = v_user_id v \<and> v_poll_id w = v_poll_id v)"
  shows "votes_unique (s\<lparr>votes := votes s @ [v]\<rparr>)"
proof -
  have "(v_user_id v, v_poll_id v) \<notin> (\<lambda>w. (v_user_id w, v_poll_id w)) ` set (votes s)"
    using assms(2) by (metis (mono_tags, lifting) Pair_inject imageE)
  with assms(1) show ?thesis by (simp add: votes_unique_def)
qed

lemma votes_unique_same: "votes s' = votes s \<Longrightarrow> votes_unique s \<Longrightarrow> votes_unique s'"
  by (simp add: votes_unique_def)

lemma votes_unique_register: "votes_unique s \<Longrightarrow> votes_unique (db_after (register gph s meth f))"
  using register_db[of gph s meth f] by (auto simp: votes_unique_def)

lemma votes_unique_create:
  "votes_unique s \<Longrightarrow> votes_unique (db_after (create_poll fi s sess meth f stamp))"
  using create_poll_db[of fi s sess meth f stamp] by (auto simp: votes_unique_def)

lemma votes_unique_toggle: "votes_unique s \<Longrightarrow> votes_unique (db_after (toggle_poll s sess p))"
  using toggle_poll_db[of s sess p] by (auto simp: votes_unique_def)

lemma votes_unique_delete: "votes_unique s \<Longrightarrow> votes_unique (db_after (delete_poll s sess p))"
  using delete_poll_db[of s sess p] by (auto simp: votes_unique_def distinct_map_filter)

lemma votes_unique_commit:
  "votes_unique s \<Longrightarrow> votes_unique (db_after (poll_detail_commit s fl nv stamp fault))"
proof -
  assume a: "votes_unique s"
  obtain uid pid oid where nv: "nv = (uid, pid, oid)" by (cases nv) auto
  from commit_db[of s fl uid pid oid stamp fault] show ?thesis
  proof (elim disjE conjE exE)
    assume "db_after (poll_detail_commit s fl (uid, pid, oid) stamp fault) = s"
    with a show ?thesis by (simp add: nv)
  next
    fix v
    assume h: "\<forall>v \<in> set (votes s). \<not> (v_user_id v = uid \<and> v_poll_id v = pid)"
      "v_user_id v = uid" "v_poll_id v = pid"
      "db_after (poll_detail_commit s fl (uid, pid, oid) stamp fault) = s\<lparr>votes := votes s @ [v]\<rparr>"
    have "votes_unique (s\<lparr>votes := votes s @ [v]\<rparr>)"
      using a h(1,2,3) by (intro votes_unique_append) simp_all
    with h(4) show ?thesis by (simp add: nv)
  qed
qed

lemma votes_unique_vote:
  "votes_unique s \<Longrightarrow> votes_unique (db_after (poll_detail s sess meth f p now stamp fault))"
proof -
  assume a: "votes_unique s"
  from poll_detail_db[of s sess meth f p now stamp fault] show ?thesis
  proof (elim disjE conjE exE)
    assume "db_after (poll_detail s sess meth f p now stamp fault) = s"
    with a show ?thesis by simp
  next
    fix v
    assume h: "\<forall>w \<in> set (votes s). \<not> (v_user_id w = v_user_id v \<and> v_poll_id w = v_poll_id v)"
      "db_after (poll_detail s sess meth f p now stamp fault) = s\<lparr>votes := votes s @ [v]\<rparr>"
    from votes_unique_append[OF a h(1)] h(2) show ?thesis by simp
  qed
qed

lemma votes_unique_start: "votes_unique (seed_admin gph empty_db)"
  by (simp add: seed_admin_def empty_db_def votes_unique_def)

lemma reachable_conc_votes_unique: "reachable_conc s \<Longrightarrow> votes_unique s"
proof (induction rule: reachable_conc.induct)
  case (c_start gph) show ?case by (rule votes_unique_start)
next
  case (c_register s gph meth f) then show ?case by (simp add: votes_unique_register)
next
  case (c_create s fromisoformat sess meth f stamp) then show ?case by (simp add: votes_unique_create)
next
  case (c_toggle s sess poll_id) then show ?case by (simp add: votes_unique_toggle)
next
  case (c_delete s sess poll_id) then show ?case by (simp add: votes_unique_delete)
next
  case (c_vote s sess meth f poll_id now stamp fault) then show ?case by (simp add: votes_unique_vote)
next
  case (c_late_insert s0 s sess meth f poll_id now fl nv stamp fault)
  then show ?case by (simp add: votes_unique_commit)
qed

lemma distinct_key_count:
  "distinct (map k xs) \<Longrightarrow> length (filter (\<lambda>x. k x = a) xs) \<le> 1"
proof (induction xs)
  case Nil then show ?case by simp
next
  case (Cons x xs)
  show ?case
  proof (cases "k x = a")
    case True
    from Cons.prems have "k x \<notin> k ` set xs" by simp
    with True have "\<forall>y \<in> set xs. k y \<noteq> a" by (metis imageI)
    then have "filter (\<lambda>x. k x = a) xs = []" by (simp add: filter_empty_conv)
    with True show ?thesis by simp
  next
    case False with Cons show ?thesis by simp
  qed
qed


subsection \<open>Options and votes stay consistent\<close>


lemma tables_ok_start: "tables_ok (seed_admin gph empty_db)"
  by (simp add: tables_ok_def seed_admin_def empty_db_def option_ids_distinct_def
      votes_match_options_def options_have_polls_def)

lemma tables_ok_users:
  "tables_ok s \<Longrightarrow> tables_ok (s\<lparr>users := us\<rparr>)"
  by (simp add: tables_ok_def option_ids_distinct_def votes_match_options_def
      options_have_polls_def)

lemma tables_ok_register: "tables_ok s \<Longrightarrow> tables_ok (db_after (register gph s meth f))"
  using register_db[of gph s meth f] by (auto simp: tables_ok_users)

lemma tables_ok_store_poll:
  assumes "tables_ok s"
  shows "tables_ok (store_poll s q e a st ts)"
proof -
  let ?s' = "store_poll s q e a st ts"
  from store_poll_options[of s q e a st ts] obtain new where
    n: "options ?s' = options s @ new" "map o_text new = ts"
       "\<forall>ob \<in> set new. o_poll_id ob = next_id (map p_id (polls s))"
       "distinct (map o_id (options s)) \<longrightarrow> distinct (map o_id (options s @ new))"
    by blast
  have 1: "option_ids_distinct ?s'"
    using assms n(1,4) by (simp add: tables_ok_def option_ids_distinct_def)
  have 2: "votes_match_options ?s'"
    using assms n(1) by (auto simp: tables_ok_def votes_match_options_def)
  have 3: "options_have_polls ?s'"
    using assms n(1,3) by (auto simp: tables_ok_def options_have_polls_def)
  from 1 2 3 show ?thesis by (simp add: tables_ok_def)
qed

lemma tables_ok_create:
  "tables_ok s \<Longrightarrow> tables_ok (db_after (create_poll fi s sess meth f stamp))"
  using create_poll_db[of fi s sess meth f stamp] by (auto simp: tables_ok_store_poll)

lemma tables_ok_toggle: "tables_ok s \<Longrightarrow> tables_ok (db_after (toggle_poll s sess p))"
proof -
  assume a: "tables_ok s"
  from toggle_poll_db[of s sess p] show ?thesis
  proof (elim disjE exE conjE)
    assume "db_after (toggle_poll s sess p) = s" with a show ?thesis by simp
  next
    fix g assume g: "\<forall>q. p_id (g q) = p_id q"
      and d: "db_after (toggle_poll s sess p) = s\<lparr>polls := map g (polls s)\<rparr>"
    have "p_id ` g ` set (polls s) = p_id ` set (polls s)"
      using g by (simp add: image_image)
    with a d show ?thesis
      by (simp add: tables_ok_def option_ids_distinct_def votes_match_options_def
          options_have_polls_def)
  qed
qed

lemma tables_ok_cascade_delete:
  assumes "tables_ok s"
  shows "tables_ok (cascade_delete s p)"
proof -
  have 1: "option_ids_distinct (cascade_delete s p)"
    using assms by (simp add: tables_ok_def option_ids_distinct_def distinct_map_filter)
  have 2: "votes_match_options (cascade_delete s p)"
    unfolding votes_match_options_def
  proof
    fix v assume "v \<in> set (votes (cascade_delete s p))"
    then have v: "v \<in> set (votes s)" "v_option_id v \<notin> o_id ` set (poll_options s p)" by auto
    from assms v(1) obtain ob where ob: "ob \<in> set (options s)" "o_id ob = v_option_id v"
      "o_poll_id ob = v_poll_id v" by (auto simp: tables_ok_def votes_match_options_def)
    have "o_poll_id ob \<noteq> p"
    proof
      assume "o_poll_id ob = p"
      with ob(1) have "ob \<in> set (poll_options s p)" by (simp add: poll_options_def)
      with ob(2) v(2) show False by (metis imageI)
    qed
    with ob show "\<exists>ob \<in> set (options (cascade_delete s p)).
        o_id ob = v_option_id v \<and> o_poll_id ob = v_poll_id v" by auto
  qed
  have 3: "options_have_polls (cascade_delete s p)"
    using assms by (auto simp: tables_ok_def options_have_polls_def)
  from 1 2 3 show ?thesis by (simp add: tables_ok_def)
qed

lemma tables_ok_delete: "tables_ok s \<Longrightarrow> tables_ok (db_after (delete_poll s sess p))"
  using delete_poll_db[of s sess p] by (auto simp: tables_ok_cascade_delete)

lemma tables_ok_vote:
  "tables_ok s \<Longrightarrow> tables_ok (db_after (poll_detail s sess meth f p now stamp fault))"
proof -
  assume a: "tables_ok s"
  from poll_detail_db[of s sess meth f p now stamp fault] show ?thesis
  proof (elim disjE exE conjE bexE)
    assume "db_after (poll_detail s sess meth f p now stamp fault) = s"
    with a show ?thesis by simp
  next
    fix v ob
    assume ob: "ob \<in> set (options s)" "o_id ob = v_option_id v" "o_poll_id ob = v_poll_id v"
      and d: "db_after (poll_detail s sess meth f p now stamp fault) = s\<lparr>votes := votes s @ [v]\<rparr>"
    from a ob show ?thesis unfolding d
      by (auto simp: tables_ok_def option_ids_distinct_def votes_match_options_def
          options_have_polls_def)
  qed
qed

lemma reachable_tables_ok: "reachable s \<Longrightarrow> tables_ok s"
proof (induction rule: reachable.induct)
  case (r_start gph) show ?case by (rule tables_ok_start)
next
  case (r_register s gph meth f) then show ?case by (simp add: tables_ok_register)
next
  case (r_create s fromisoformat sess meth f stamp) then show ?case by (simp add: tables_ok_create)
next
  case (r_toggle s sess poll_id) then show ?case by (simp add: tables_ok_toggle)
next
  case (r_delete s sess poll_id) then show ?case by (simp add: tables_ok_delete)
next
  case (r_vote s sess meth f poll_id now stamp fault) then show ?case by (simp add: tables_ok_vote)
qed

subsection \<open>Counting votes\<close>

lemma sum_indicator_length:
  "sum_list (map (\<lambda>x. if P x then 1 else 0) xs) = length (filter P xs)"
  by (induction xs) simp_all

lemma distinct_key_filter_one:
  "distinct (map k xs) \<Longrightarrow> x \<in> set xs \<Longrightarrow>
   length (filter (\<lambda>y. k y = k x \<and> P y) xs) = (if P x then 1 else 0)"
proof (induction xs)
  case Nil then show ?case by simp
next
  case (Cons y ys)
  show ?case
  proof (cases "x = y")
    case True
    from Cons.prems(1) have "k y \<notin> k ` set ys" by simp
    then have "\<forall>z \<in> set ys. k z \<noteq> k y" by (metis imageI)
    then have "filter (\<lambda>z. k z = k y \<and> P z) ys = []" by (auto simp: filter_empty_conv)
    with True show ?thesis by simp
  next
    case False
    with Cons.prems have x: "x \<in> set ys" by simp
    from Cons.prems(1) have "k y \<notin> k ` set ys" by simp
    with x have "k y \<noteq> k x" by (metis imageI)
    with Cons.IH[OF _ x] Cons.prems(1) show ?thesis by simp
  qed
qed

lemma count_votes_by_option:
  assumes d: "distinct (map o_id os)"
    and m: "\<forall>v \<in> set vs. \<exists>ob \<in> set os. o_id ob = v_option_id v \<and> o_poll_id ob = v_poll_id v"
  shows "length (filter (\<lambda>v. v_poll_id v = pid) vs) =
         sum_list (map (\<lambda>ob. length (filter (\<lambda>v. v_option_id v = o_id ob) vs))
                     (filter (\<lambda>ob. o_poll_id ob = pid) os))"
  using m
proof (induction vs)
  case Nil then show ?case by simp
next
  case (Cons v vs)
  from Cons.prems obtain ob where ob: "ob \<in> set os" "o_id ob = v_option_id v"
    "o_poll_id ob = v_poll_id v" by auto
  let ?os = "filter (\<lambda>ob. o_poll_id ob = pid) os"
  have "sum_list (map (\<lambda>ob. length (filter (\<lambda>w. v_option_id w = o_id ob) (v # vs))) ?os) =
        sum_list (map (\<lambda>ob. (if o_id ob = v_option_id v then 1 else 0)
                              + length (filter (\<lambda>w. v_option_id w = o_id ob) vs)) ?os)"
    by (intro arg_cong[where f=sum_list] map_cong) auto
  also have "\<dots> = length (filter (\<lambda>ob. o_id ob = v_option_id v) ?os)
        + sum_list (map (\<lambda>ob. length (filter (\<lambda>w. v_option_id w = o_id ob) vs)) ?os)"
    by (simp add: sum_list_addf sum_indicator_length)
  also have "length (filter (\<lambda>ob. o_id ob = v_option_id v) ?os) =
         length (filter (\<lambda>y. o_id y = o_id ob \<and> o_poll_id y = pid) os)"
    by (simp add: ob(2) conj_commute)
  also have "\<dots> = (if o_poll_id ob = pid then 1 else 0)"
    by (rule distinct_key_filter_one[OF d ob(1)])
  finally show ?case using Cons ob(3) by simp
qed

subsection \<open>The example run\<close>

lemma run0_eval: "run0 = \<lparr>users = [\<lparr>u_id = 1, u_username = ''admin'', u_password = ''hash:admin123'',
        u_is_admin = True\<rparr>], polls = [], options = [], votes = []\<rparr>"
  by code_simp

lemma run1_eval: "run1 = \<lparr>users = [\<lparr>u_id = 1, u_username = ''admin'', u_password = ''hash:admin123'',
        u_is_admin = True\<rparr>],
    polls = [\<lparr>p_id = 1, p_question = ''Best color?'', p_created_at = 100,
          p_expiry = None, p_active = True\<rparr>],
    options = [\<lparr>o_id = 1, o_text = ''Red'', o_poll_id = 1\<rparr>,
       \<lparr>o_id = 2, o_text = ''Blue'', o_poll_id = 1\<rparr>],
    votes = []\<rparr>"
  by code_simp

lemma run2_eval: "run2 = run1\<lparr>votes := [\<lparr>v_id = 1, v_user_id = 1, v_poll_id = 1, v_option_id = 1,
          v_created_at = 121\<rparr>]\<rparr>"
  by code_simp

section \<open>One vote per user and poll\<close>

lemma insert_vote_duplicate:
  "\<exists>v \<in> set (votes s). v_user_id v = u \<and> v_poll_id v = p \<Longrightarrow>
   insert_vote fault s (u, p, ob) stamp = Inl IntegrityError"
  by (auto simp: insert_vote_def)

text \<open>
  Claim C1. In every database state that can be reached, also when vote requests overlap
  (\<open>reachable_conc\<close>), there is at most one vote row for each user and poll. An insert
  that arrives when the table already holds a vote of that user on that poll is refused
  by the constraint of line 47 with IntegrityError; the handler catches it and answers
  with the flash ``Could not record vote. You may have already voted.'' and a redirect to
  the index, leaving the database as it was: the exception does not leave the handler.
\<close>

theorem one_vote_per_user_and_poll:
  "reachable_conc s \<Longrightarrow>
     (\<forall>u p. length (filter (\<lambda>v. v_user_id v = u \<and> v_poll_id v = p) (votes s)) \<le> 1)
   \<and> (\<forall>fl u p ob stamp fault.
        (\<exists>v \<in> set (votes s). v_user_id v = u \<and> v_poll_id v = p) \<longrightarrow>
        insert_vote fault s (u, p, ob) stamp = Inl IntegrityError
        \<and> poll_detail_commit s fl (u, p, ob) stamp fault =
            finish (Redirect EP_index) (fl @ [flash_not_recorded]) s)"
proof -
  assume r: "reachable_conc s"
  have "length (filter (\<lambda>v. v_user_id v = u \<and> v_poll_id v = p) (votes s)) \<le> 1" for u p
    using distinct_key_count[of "\<lambda>v. (v_user_id v, v_poll_id v)" "votes s" "(u, p)"]
      reachable_conc_votes_unique[OF r] by (simp add: votes_unique_def)
  moreover have "insert_vote fault s (u, p, ob) stamp = Inl IntegrityError
        \<and> poll_detail_commit s fl (u, p, ob) stamp fault =
            finish (Redirect EP_index) (fl @ [flash_not_recorded]) s"
    if "\<exists>v \<in> set (votes s). v_user_id v = u \<and> v_poll_id v = p" for fl u p ob stamp fault
    using insert_vote_duplicate[OF that] by (simp add: poll_detail_commit_def)
  ultimately show ?thesis by blast
qed


lemma reachable_conc_run2: "reachable_conc run2"
  unfolding run2_def run1_def run0_def
  by (intro reachable_conc.c_vote reachable_conc.c_create reachable_conc.c_start)

theorem one_vote_per_user_and_poll_witness:
  "reachable_conc run2
   \<and> poll_detail_check run1 (Some 1) POST [(''option'', ''2'')] 1 125 = Inr ([], (1, 1, 2))
   \<and> length (filter (\<lambda>v. v_user_id v = 1 \<and> v_poll_id v = 1) (votes run2)) = 1
   \<and> insert_vote False run2 (1, 1, 2) 130 = Inl IntegrityError
   \<and> poll_detail_commit run2 [] (1, 1, 2) 130 False =
       finish (Redirect EP_index) [flash_not_recorded] run2"
proof -
  have r: "reachable_conc run2" by (rule reachable_conc_run2)
  have c: "poll_detail_check run1 (Some 1) POST [(''option'', ''2'')] 1 125 = Inr ([], (1, 1, 2))"
    by code_simp
  have e: "\<exists>v \<in> set (votes run2). v_user_id v = 1 \<and> v_poll_id v = 1"
    by code_simp
  have n: "length (filter (\<lambda>v. v_user_id v = 1 \<and> v_poll_id v = 1) (votes run2)) \<ge> 1"
    by code_simp
  from one_vote_per_user_and_poll[OF r]
  have A: "\<forall>u p. length (filter (\<lambda>v. v_user_id v = u \<and> v_poll_id v = p) (votes run2)) \<le> 1"
    and B: "\<forall>fl u p ob stamp fault.
        (\<exists>v \<in> set (votes run2). v_user_id v = u \<and> v_poll_id v = p) \<longrightarrow>
        insert_vote fault run2 (u, p, ob) stamp = Inl IntegrityError
        \<and> poll_detail_commit run2 fl (u, p, ob) stamp fault =
            finish (Redirect EP_index) (fl @ [flash_not_recorded]) run2"
    by blast+
  from A have "length (filter (\<lambda>v. v_user_id v = 1 \<and> v_poll_id v = 1) (votes run2)) \<le> 1"
    by blast
  with n have l: "length (filter (\<lambda>v. v_user_id v = 1 \<and> v_poll_id v = 1) (votes run2)) = 1"
    by simp
  from B e have "insert_vote False run2 (1, 1, 2) 130 = Inl IntegrityError
        \<and> poll_detail_commit run2 [] (1, 1, 2) 130 False =
            finish (Redirect EP_index) ([] @ [flash_not_recorded]) run2"
    by blast
  with r c l show ?thesis by simp
qed

section \<open>Closed polls\<close>

text \<open>
  Claim C2. A POST to \<open>/poll/<id>\<close> by a logged-in user whose row exists, on a poll that
  exists, is answered with the flash ``This poll is closed; you cannot vote.'' and a
  redirect to the index whenever the poll is inactive or its expiry is set and earlier
  than the current time; the database is left as it was, so no vote row is created.
  (An inactive poll has the flash ``This poll is currently inactive.'' in front.)
\<close>

theorem closed_poll_rejects_vote:
  assumes "\<not> falsy_session sess"
    and "current_user s sess = Inr (Some usr)"
    and "query_get p_id (polls s) poll_id = Inr (Some pl)"
    and "\<not> p_active pl \<or> (\<exists>e. p_expiry pl = Some e \<and> e < now)"
  shows "poll_detail s sess POST f poll_id now stamp fault =
           finish (Redirect EP_index)
             ((if p_active pl then [] else [flash_inactive]) @ [flash_closed]) s
         \<and> votes (db_after (poll_detail s sess POST f poll_id now stamp fault)) = votes s"
  using assms
  by (auto simp: poll_detail_def poll_detail_fn_def poll_detail_check_def login_required_ok
      is_expired_def)

theorem closed_poll_rejects_vote_witness:
  "\<not> falsy_session (Some 2)
   \<and> current_user ex_db (Some 2) = Inr (Some (users ex_db ! 1))
   \<and> query_get p_id (polls ex_db) 3 = Inr (Some (polls ex_db ! 2))
   \<and> p_expiry (polls ex_db ! 2) = Some 400 \<and> (400 :: int) < 500
   \<and> poll_detail ex_db (Some 2) POST [(''option'', ''5'')] 3 500 501 False =
       finish (Redirect EP_index) [flash_closed] ex_db
   \<and> votes (db_after (poll_detail ex_db (Some 2) POST [(''option'', ''5'')] 3 500 501 False)) =
       votes ex_db"
proof -
  have h1: "\<not> falsy_session (Some 2)" by (simp add: falsy_session_def)
  have h2: "current_user ex_db (Some 2) = Inr (Some (users ex_db ! 1))"
    by (simp add: current_user_def query_get_def sqlite_int_def ex_db_def)
  have h3: "query_get p_id (polls ex_db) 3 = Inr (Some (polls ex_db ! 2))"
    by (simp add: query_get_def sqlite_int_def ex_db_def)
  have h4: "p_expiry (polls ex_db ! 2) = Some 400 \<and> (400 :: int) < 500"
    by (simp add: ex_db_def)
  have h5: "\<not> p_active (polls ex_db ! 2) \<or> (\<exists>e. p_expiry (polls ex_db ! 2) = Some e \<and> e < 500)"
    using h4 by simp
  have "p_active (polls ex_db ! 2)" by (simp add: ex_db_def)
  with closed_poll_rejects_vote [OF h1 h2 h3 h5, of "[(''option'', ''5'')]" 501 False] h1 h2 h3 h4
  show ?thesis by simp
qed

section \<open>The order of the checks on a vote\<close>

text \<open>
  The spec has the option checked before the state of the poll, and a missing option
  reported as NotFound. The handler checks in another order. In the example data, the
  second user posts option 1, which exists and belongs to poll 1, to the inactive poll 2:
  the answer is the closed-poll flash, not ``Invalid option selected.''. And the first
  user posts option 99, which does not exist, to the open poll 1: the answer is the flash
  ``Invalid option selected.'' with a redirect to the poll page, not a 404.
\<close>

theorem cast_vote_order_counterexample:
  "find (\<lambda>ob. o_id ob = 1) (options ex_db) = Some \<lparr>o_id = 1, o_text = ''Red'', o_poll_id = 1\<rparr>
   \<and> poll_detail ex_db (Some 2) POST [(''option'', ''1'')] 2 500 501 False =
       finish (Redirect EP_index) [flash_inactive, flash_closed] ex_db
   \<and> flash_invalid \<notin> set [flash_inactive, flash_closed]
   \<and> find (\<lambda>ob. o_id ob = 99) (options ex_db) = None
   \<and> poll_detail ex_db (Some 1) POST [(''option'', ''99'')] 1 500 501 False =
       finish (Redirect (EP_poll_detail 1)) [flash_invalid] ex_db
   \<and> Redirect (EP_poll_detail 1) \<noteq> Abort404"
proof -
  have a: "find (\<lambda>ob. o_id ob = 1) (options ex_db) = Some \<lparr>o_id = 1, o_text = ''Red'', o_poll_id = 1\<rparr>"
    "find (\<lambda>ob. o_id ob = 99) (options ex_db) = None"
    by (simp_all add: ex_db_def)
  have b: "poll_detail ex_db (Some 2) POST [(''option'', ''1'')] 2 500 501 False =
       finish (Redirect EP_index) [flash_inactive, flash_closed] ex_db"
    by code_simp
  have c: "flash_invalid \<notin> set [flash_inactive, flash_closed]"
    by (simp add: flash_invalid_def flash_inactive_def flash_closed_def)
  have d: "poll_detail ex_db (Some 1) POST [(''option'', ''99'')] 1 500 501 False =
       finish (Redirect (EP_poll_detail 1)) [flash_invalid] ex_db"
    by code_simp
  from a b c d show ?thesis by simp
qed

text \<open>
  Claim C3, as the code has it. For a POST by a logged-in user whose row exists, to a
  poll key that fits SQLite's signed 64-bit integers (a larger key makes the first query
  raise OverflowError), the cause of failure is decided in this order: 404 when the poll
  does not exist; then the closed-poll flash when the poll is inactive or expired; then
  the already-voted flash when the user has a vote on the poll; and only then, for an
  option value that \<open>int\<close> accepts and SQLite can hold, the flash ``Invalid option
  selected.'' with a redirect to the poll page when no option has that key or the option
  belongs to another poll. In particular a request on an open poll by a user who has not
  voted there, whose chosen option exists but belongs to a different poll, is answered
  with ``Invalid option selected.''.
\<close>

theorem cast_vote_check_order:
  assumes "\<not> falsy_session sess"
    and "current_user s sess = Inr (Some usr)"
    and "sqlite_int poll_id"
  shows
    "(find (\<lambda>q. p_id q = poll_id) (polls s) = None \<longrightarrow>
        poll_detail s sess POST f poll_id now stamp fault = finish Abort404 [] s)
     \<and> (\<forall>pl. find (\<lambda>q. p_id q = poll_id) (polls s) = Some pl \<longrightarrow>
          (\<not> p_active pl \<or> is_expired pl now \<longrightarrow>
             poll_detail s sess POST f poll_id now stamp fault =
               finish (Redirect EP_index)
                 ((if p_active pl then [] else [flash_inactive]) @ [flash_closed]) s)
        \<and> (p_active pl \<and> \<not> is_expired pl now
             \<and> (\<exists>v \<in> set (votes s). v_user_id v = u_id usr \<and> v_poll_id v = p_id pl) \<longrightarrow>
             poll_detail s sess POST f poll_id now stamp fault =
               finish (Redirect EP_index) [flash_voted] s)
        \<and> (p_active pl \<and> \<not> is_expired pl now
             \<and> \<not> (\<exists>v \<in> set (votes s). v_user_id v = u_id usr \<and> v_poll_id v = p_id pl) \<longrightarrow>
             (\<forall>raw n. form_get f ''option'' = Some raw \<and> py_int raw = Some n \<and> sqlite_int n
                 \<and> (case find (\<lambda>ob. o_id ob = n) (options s) of
                       None \<Rightarrow> True
                     | Some ob \<Rightarrow> o_poll_id ob \<noteq> p_id pl) \<longrightarrow>
                poll_detail s sess POST f poll_id now stamp fault =
                  finish (Redirect (EP_poll_detail (p_id pl))) [flash_invalid] s)))"
proof -
  have pd: "poll_detail s sess POST f poll_id now stamp fault =
      poll_detail_fn s sess POST f poll_id now stamp fault"
    using assms(1) by (simp add: poll_detail_def login_required_ok)
  have ex: "(find (\<lambda>v. v_user_id v = u \<and> v_poll_id v = p) (votes s) \<noteq> None)
      = (\<exists>v \<in> set (votes s). v_user_id v = u \<and> v_poll_id v = p)" for u p
    by (auto simp: find_None_iff)
  have nonempty: "py_int raw = Some n \<Longrightarrow> raw \<noteq> []" for raw n
    by (auto simp: py_int_def int_strip_def)
  have q: "query_get p_id (polls s) poll_id = Inr (find (\<lambda>q. p_id q = poll_id) (polls s))"
    using assms(3) by (simp add: query_get_def)
  have 1: "find (\<lambda>q. p_id q = poll_id) (polls s) = None \<longrightarrow>
        poll_detail s sess POST f poll_id now stamp fault = finish Abort404 [] s"
    by (simp add: pd poll_detail_fn_def poll_detail_check_def q)
  have 2: "(\<not> p_active pl \<or> is_expired pl now \<longrightarrow>
             poll_detail s sess POST f poll_id now stamp fault =
               finish (Redirect EP_index)
                 ((if p_active pl then [] else [flash_inactive]) @ [flash_closed]) s)
        \<and> (p_active pl \<and> \<not> is_expired pl now
             \<and> (\<exists>v \<in> set (votes s). v_user_id v = u_id usr \<and> v_poll_id v = p_id pl) \<longrightarrow>
             poll_detail s sess POST f poll_id now stamp fault =
               finish (Redirect EP_index) [flash_voted] s)
        \<and> (p_active pl \<and> \<not> is_expired pl now
             \<and> \<not> (\<exists>v \<in> set (votes s). v_user_id v = u_id usr \<and> v_poll_id v = p_id pl) \<longrightarrow>
             (\<forall>raw n. form_get f ''option'' = Some raw \<and> py_int raw = Some n \<and> sqlite_int n
                 \<and> (case find (\<lambda>ob. o_id ob = n) (options s) of
                       None \<Rightarrow> True
                     | Some ob \<Rightarrow> o_poll_id ob \<noteq> p_id pl) \<longrightarrow>
                poll_detail s sess POST f poll_id now stamp fault =
                  finish (Redirect (EP_poll_detail (p_id pl))) [flash_invalid] s))"
    if pl: "find (\<lambda>q. p_id q = poll_id) (polls s) = Some pl" for pl
  proof (intro conjI impI allI)
    assume "\<not> p_active pl \<or> is_expired pl now"
    then show "poll_detail s sess POST f poll_id now stamp fault =
               finish (Redirect EP_index)
                 ((if p_active pl then [] else [flash_inactive]) @ [flash_closed]) s"
      by (auto simp: pd poll_detail_fn_def poll_detail_check_def q pl assms(2) Let_def)
  next
    assume "p_active pl \<and> \<not> is_expired pl now
             \<and> (\<exists>v \<in> set (votes s). v_user_id v = u_id usr \<and> v_poll_id v = p_id pl)"
    then show "poll_detail s sess POST f poll_id now stamp fault =
               finish (Redirect EP_index) [flash_voted] s"
      by (auto simp: pd poll_detail_fn_def poll_detail_check_def q pl assms(2) Let_def
          find_None_iff)
  next
    fix raw n
    assume a: "p_active pl \<and> \<not> is_expired pl now
             \<and> \<not> (\<exists>v \<in> set (votes s). v_user_id v = u_id usr \<and> v_poll_id v = p_id pl)"
      and b: "form_get f ''option'' = Some raw \<and> py_int raw = Some n \<and> sqlite_int n
                 \<and> (case find (\<lambda>ob. o_id ob = n) (options s) of
                       None \<Rightarrow> True
                     | Some ob \<Rightarrow> o_poll_id ob \<noteq> p_id pl)"
    from b nonempty have ne: "raw \<noteq> []" by blast
    from a have nx: "find (\<lambda>v. v_user_id v = u_id usr \<and> v_poll_id v = p_id pl) (votes s) = None"
      by (auto simp: find_None_iff)
    from b have qo: "query_get o_id (options s) n = Inr (find (\<lambda>ob. o_id ob = n) (options s))"
      by (simp add: query_get_def)
    from a b ne show "poll_detail s sess POST f poll_id now stamp fault =
                  finish (Redirect (EP_poll_detail (p_id pl))) [flash_invalid] s"
      by (auto simp: pd poll_detail_fn_def poll_detail_check_def q pl assms(2) Let_def nx
          qo split: option.splits)
  qed
  from 1 2 show ?thesis by blast
qed


theorem cast_vote_check_order_witness:
  "\<not> falsy_session (Some 1)
   \<and> current_user ex_db (Some 1) = Inr (Some (users ex_db ! 0))
   \<and> sqlite_int 1
   \<and> find (\<lambda>q. p_id q = 1) (polls ex_db) = Some (polls ex_db ! 0)
   \<and> p_active (polls ex_db ! 0) \<and> \<not> is_expired (polls ex_db ! 0) 500
   \<and> \<not> (\<exists>v \<in> set (votes ex_db). v_user_id v = 1 \<and> v_poll_id v = 1)
   \<and> form_get [(''option'', ''3'')] ''option'' = Some ''3'' \<and> py_int ''3'' = Some 3
   \<and> sqlite_int 3
   \<and> find (\<lambda>ob. o_id ob = 3) (options ex_db) = Some \<lparr>o_id = 3, o_text = ''Cat'', o_poll_id = 2\<rparr>
   \<and> poll_detail ex_db (Some 1) POST [(''option'', ''3'')] 1 500 501 False =
       finish (Redirect (EP_poll_detail 1)) [flash_invalid] ex_db"
proof -
  have h1: "\<not> falsy_session (Some 1)" by code_simp
  have h2: "current_user ex_db (Some 1) = Inr (Some (users ex_db ! 0))" by code_simp
  have h3: "sqlite_int 1" by code_simp
  have h4: "find (\<lambda>q. p_id q = 1) (polls ex_db) = Some (polls ex_db ! 0)" by code_simp
  have h5: "p_active (polls ex_db ! 0) \<and> \<not> is_expired (polls ex_db ! 0) 500" by code_simp
  have h6: "\<not> (\<exists>v \<in> set (votes ex_db). v_user_id v = 1 \<and> v_poll_id v = 1)" by code_simp
  have h7: "form_get [(''option'', ''3'')] ''option'' = Some ''3'' \<and> py_int ''3'' = Some 3
      \<and> sqlite_int 3" by code_simp
  have h8: "find (\<lambda>ob. o_id ob = 3) (options ex_db) = Some \<lparr>o_id = 3, o_text = ''Cat'', o_poll_id = 2\<rparr>"
    by code_simp
  have h9: "u_id (users ex_db ! 0) = 1" "p_id (polls ex_db ! 0) = 1" by code_simp+
  have h10: "(case find (\<lambda>ob. o_id ob = 3) (options ex_db) of
                       None \<Rightarrow> True
                     | Some ob \<Rightarrow> o_poll_id ob \<noteq> p_id (polls ex_db ! 0))"
    by (simp add: h8 h9)
  note T = cast_vote_check_order[OF h1 h2 h3, of "[(''option'', ''3'')]" 500 501 False,
      THEN conjunct2, rule_format, OF h4, THEN conjunct2, THEN conjunct2, rule_format]
  have "poll_detail ex_db (Some 1) POST [(''option'', ''3'')] 1 500 501 False =
       finish (Redirect (EP_poll_detail (p_id (polls ex_db ! 0)))) [flash_invalid] ex_db"
    by (rule T[of "''3''" 3]) (simp_all add: h5 h6 h7 h8 h9)
  with h1 h2 h3 h4 h5 h6 h7 h8 h9 show ?thesis by simp
qed

section \<open>A vote request is atomic\<close>

lemma flash_recorded_neq [simp]:
  "flash_recorded \<noteq> flash_inactive" "flash_recorded \<noteq> flash_closed"
  "flash_recorded \<noteq> flash_voted" "flash_recorded \<noteq> flash_choose"
  "flash_recorded \<noteq> flash_invalid" "flash_recorded \<noteq> flash_not_recorded"
  "flash_recorded \<noteq> flash_login"
  by (simp_all add: flash_recorded_def flash_inactive_def flash_closed_def flash_voted_def
      flash_choose_def flash_invalid_def flash_not_recorded_def flash_login_def)

lemma check_Inl_not_recorded:
  "poll_detail_check s sess meth f poll_id now = Inl r \<Longrightarrow> flash_recorded \<notin> set (flashes r)"
  by (auto simp: poll_detail_check_def Let_def split: sum.splits option.splits if_splits)

lemma check_Inr_shape:
  assumes "poll_detail_check s sess meth f poll_id now = Inr (fl, (uid, pid, oid))"
  shows "fl = [] \<and> pid = poll_id"
  using assms
  by (auto simp: poll_detail_check_def query_get_def Let_def find_Some_iff
      split: sum.splits option.splits if_splits)

lemma commit_fault: "db_after (poll_detail_commit s fl nv stamp True) = s"
  by (cases nv) (auto simp: poll_detail_commit_def insert_vote_def)

text \<open>
  Claim C4. A request to \<open>/poll/<id>\<close> either succeeds (the flash ``Vote recorded.
  Thank you!'', with a redirect to the index), and then the database afterwards is the
  database before with exactly one vote row appended, for this poll, and nothing else
  changed; or it does not succeed, and then the database afterwards is the database
  before. A failure of the storage layer during the insert is among the latter.
\<close>

theorem vote_request_atomic:
  "(flash_recorded \<in> set (flashes (poll_detail s sess meth f poll_id now stamp fault)) \<longrightarrow>
      resp (poll_detail s sess meth f poll_id now stamp fault) = Redirect EP_index
      \<and> (\<exists>uid oid. db_after (poll_detail s sess meth f poll_id now stamp fault) =
            s\<lparr>votes := votes s @
               [\<lparr>v_id = next_id (map v_id (votes s)), v_user_id = uid, v_poll_id = poll_id,
                 v_option_id = oid, v_created_at = stamp\<rparr>]\<rparr>))
   \<and> (flash_recorded \<notin> set (flashes (poll_detail s sess meth f poll_id now stamp fault)) \<longrightarrow>
        db_after (poll_detail s sess meth f poll_id now stamp fault) = s)
   \<and> (fault \<longrightarrow> db_after (poll_detail s sess meth f poll_id now stamp fault) = s)"
proof (cases "falsy_session sess")
  case True
  then show ?thesis by (simp add: poll_detail_def login_required_def)
next
  case False
  then have pd: "poll_detail s sess meth f poll_id now stamp fa =
      poll_detail_fn s sess meth f poll_id now stamp fa" for fa
    by (simp add: poll_detail_def login_required_ok)
  show ?thesis
  proof (cases "poll_detail_check s sess meth f poll_id now")
    case (Inl r)
    with check_Inl[OF Inl] check_Inl_not_recorded[OF Inl] show ?thesis
      by (simp add: pd poll_detail_fn_def)
  next
    case (Inr x)
    obtain fl uid pid oid where x: "x = (fl, (uid, pid, oid))" by (cases x) auto
    from check_Inr_shape[OF Inr[unfolded x]] have fl: "fl = []" and pid: "pid = poll_id" by auto
    have eq: "poll_detail s sess meth f poll_id now stamp fa =
        poll_detail_commit s [] (uid, poll_id, oid) stamp fa" for fa
      using Inr x fl pid by (simp add: pd poll_detail_fn_def)
    show ?thesis
    proof (cases "insert_vote fault s (uid, poll_id, oid) stamp")
      case (Inl e)
      then show ?thesis using commit_fault[of s "[]" "(uid, poll_id, oid)" stamp]
        by (auto simp: eq poll_detail_commit_def)
    next
      case (Inr s')
      from insert_vote_Inr[OF Inr] have s': "s' = s\<lparr>votes := votes s @
                [\<lparr>v_id = next_id (map v_id (votes s)), v_user_id = uid, v_poll_id = poll_id,
                  v_option_id = oid, v_created_at = stamp\<rparr>]\<rparr>" by simp
      have nf: "\<not> fault" using Inr by (auto simp: insert_vote_def split: if_splits)
      have "\<exists>uid oid. s' = s\<lparr>votes := votes s @
               [\<lparr>v_id = next_id (map v_id (votes s)), v_user_id = uid, v_poll_id = poll_id,
                 v_option_id = oid, v_created_at = stamp\<rparr>]\<rparr>"
        using s' by blast
      with Inr nf show ?thesis by (simp add: eq poll_detail_commit_def)
    qed
  qed
qed

lemma run2_flashes:
  "flashes (poll_detail run1 (Some 1) POST [(''option'', ''1'')] 1 120 121 False) = [flash_recorded]"
  by code_simp

theorem vote_request_atomic_witness:
  "flash_recorded \<in> set (flashes (poll_detail run1 (Some 1) POST [(''option'', ''1'')] 1 120 121 False))
   \<and> resp (poll_detail run1 (Some 1) POST [(''option'', ''1'')] 1 120 121 False) = Redirect EP_index
   \<and> (\<exists>uid oid. db_after (poll_detail run1 (Some 1) POST [(''option'', ''1'')] 1 120 121 False) =
          run1\<lparr>votes := votes run1 @
             [\<lparr>v_id = next_id (map v_id (votes run1)), v_user_id = uid, v_poll_id = 1,
               v_option_id = oid, v_created_at = 121\<rparr>]\<rparr>)
   \<and> db_after (poll_detail run1 (Some 1) POST [(''option'', ''1'')] 1 120 121 True) = run1"
proof -
  have a: "flash_recorded \<in>
      set (flashes (poll_detail run1 (Some 1) POST [(''option'', ''1'')] 1 120 121 False))"
    by (simp add: run2_flashes)
  from vote_request_atomic[of run1 "Some 1" POST "[(''option'', ''1'')]" 1 120 121 False] a
  have b: "resp (poll_detail run1 (Some 1) POST [(''option'', ''1'')] 1 120 121 False) = Redirect EP_index
   \<and> (\<exists>uid oid. db_after (poll_detail run1 (Some 1) POST [(''option'', ''1'')] 1 120 121 False) =
          run1\<lparr>votes := votes run1 @
             [\<lparr>v_id = next_id (map v_id (votes run1)), v_user_id = uid, v_poll_id = 1,
               v_option_id = oid, v_created_at = 121\<rparr>]\<rparr>)"
    by blast
  from vote_request_atomic[of run1 "Some 1" POST "[(''option'', ''1'')]" 1 120 121 True]
  have c: "db_after (poll_detail run1 (Some 1) POST [(''option'', ''1'')] 1 120 121 True) = run1"
    by blast
  from a b c show ?thesis by blast
qed

section \<open>Votes, options and polls\<close>

text \<open>
  The spec asks the invariant of every reachable state, and speaks of concurrent
  requests. When two requests overlap it fails. In the run \<open>run_orphan\<close> the
  administrator's vote for Red passes its checks while poll 1 exists; the poll is deleted,
  and its options with it, before the insert arrives; the insert then stores a vote
  whose option and poll no longer exist (SQLite does not enforce the foreign keys). The
  vote references poll 1, so the poll's count is 1, while the sum over the options of
  poll 1, of which there are none, is 0.
\<close>

theorem votes_follow_options_counterexample:
  "poll_detail_check run1 (Some 1) POST [(''option'', ''1'')] 1 120 = Inr ([], (1, 1, 1))
   \<and> polls run_deleted = [] \<and> options run_deleted = [] \<and> votes run_deleted = []
   \<and> reachable_conc run_orphan
   \<and> votes run_orphan =
       [\<lparr>v_id = 1, v_user_id = 1, v_poll_id = 1, v_option_id = 1, v_created_at = 130\<rparr>]
   \<and> options run_orphan = []
   \<and> \<not> (\<forall>v \<in> set (votes run_orphan). \<exists>ob \<in> set (options run_orphan).
           o_id ob = v_option_id v \<and> o_poll_id ob = v_poll_id v)
   \<and> count_poll_votes run_orphan 1 = 1
   \<and> sum_list (map (\<lambda>ob. count_option_votes run_orphan (o_id ob)) (poll_options run_orphan 1)) = 0"
proof -
  have r1: "reachable_conc run1"
    unfolding run1_def run0_def by (intro reachable_conc.c_create reachable_conc.c_start)
  have rd: "reachable_conc run_deleted"
    unfolding run_deleted_def by (rule reachable_conc.c_delete[OF r1])
  have s: "\<not> falsy_session (Some 1)" by code_simp
  have c: "poll_detail_check run1 (Some 1) POST [(''option'', ''1'')] 1 120 = Inr ([], (1, 1, 1))"
    by code_simp
  have ro: "reachable_conc run_orphan"
    unfolding run_orphan_def by (rule reachable_conc.c_late_insert[OF r1 rd s c])
  have v: "votes run_orphan =
       [\<lparr>v_id = 1, v_user_id = 1, v_poll_id = 1, v_option_id = 1, v_created_at = 130\<rparr>]"
    and ob: "options run_orphan = []"
    and n: "count_poll_votes run_orphan 1 = 1"
    and m: "sum_list (map (\<lambda>ob. count_option_votes run_orphan (o_id ob))
                (poll_options run_orphan 1)) = 0"
    by code_simp+
  have ng: "\<not> (\<forall>v \<in> set (votes run_orphan). \<exists>ob \<in> set (options run_orphan).
           o_id ob = v_option_id v \<and> o_poll_id ob = v_poll_id v)"
    by (simp add: v ob)
  have d: "polls run_deleted = []" "options run_deleted = []" "votes run_deleted = []"
    by code_simp+
  from c d ro v ob ng n m show ?thesis by blast
qed

text \<open>
  Claim C5, as the code has it. In every database state reached by serving requests one
  after the other, no two of them overlapping, the option keys are distinct and every
  vote's \<open>option_id\<close> is the key of an option row whose \<open>poll_id\<close> is the vote's
  \<open>poll_id\<close>; hence, for every poll key, the number of votes that reference the poll
  is the sum, over the poll's options, of the number of votes that reference the option
  (the counts \<open>admin_results\<close> computes).
\<close>

theorem votes_follow_options:
  "reachable s \<Longrightarrow>
     distinct (map o_id (options s))
   \<and> (\<forall>v \<in> set (votes s). \<exists>ob \<in> set (options s).
         o_id ob = v_option_id v \<and> o_poll_id ob = v_poll_id v)
   \<and> (\<forall>pid. count_poll_votes s pid =
         sum_list (map (\<lambda>ob. count_option_votes s (o_id ob)) (poll_options s pid)))"
proof -
  assume "reachable s"
  then have t: "tables_ok s" by (rule reachable_tables_ok)
  then have d: "distinct (map o_id (options s))"
    and m: "\<forall>v \<in> set (votes s). \<exists>ob \<in> set (options s).
         o_id ob = v_option_id v \<and> o_poll_id ob = v_poll_id v"
    by (simp_all add: tables_ok_def option_ids_distinct_def votes_match_options_def)
  from count_votes_by_option[OF d m] d m show ?thesis
    by (simp add: count_poll_votes_def count_option_votes_def poll_options_def)
qed

theorem votes_follow_options_witness:
  "reachable run2
   \<and> votes run2 \<noteq> []
   \<and> count_poll_votes run2 1 = 1
   \<and> sum_list (map (\<lambda>ob. count_option_votes run2 (o_id ob)) (poll_options run2 1)) = 1"
proof -
  have r: "reachable run2"
    unfolding run2_def run1_def run0_def
    by (intro reachable.r_vote reachable.r_create reachable.r_start)
  have c: "count_poll_votes run2 1 = 1" "votes run2 \<noteq> []"
    by (simp_all add: run2_eval count_poll_votes_def)
  from votes_follow_options[OF r] have
    "count_poll_votes run2 1 =
       sum_list (map (\<lambda>ob. count_option_votes run2 (o_id ob)) (poll_options run2 1))"
    by blast
  with r c show ?thesis by simp
qed

section \<open>Creating a poll\<close>

lemma poll_options_store_poll:
  assumes "options_have_polls s"
  shows "map o_text (poll_options (store_poll s q e a st ts) (next_id (map p_id (polls s)))) = ts"
proof -
  let ?pid = "next_id (map p_id (polls s))"
  from store_poll_options[of s q e a st ts] obtain new where
    n: "options (store_poll s q e a st ts) = options s @ new" "map o_text new = ts"
       "\<forall>ob \<in> set new. o_poll_id ob = ?pid"
    by blast
  have "\<forall>ob \<in> set (options s). o_poll_id ob \<noteq> ?pid"
  proof
    fix ob assume "ob \<in> set (options s)"
    with assms have "o_poll_id ob \<in> set (map p_id (polls s))"
      by (auto simp: options_have_polls_def)
    from next_id_gt[OF this] show "o_poll_id ob \<noteq> ?pid" by simp
  qed
  then have "filter (\<lambda>ob. o_poll_id ob = ?pid) (options s) = []"
    by (simp add: filter_empty_conv)
  moreover from n(3) have "filter (\<lambda>ob. o_poll_id ob = ?pid) new = new"
    by (simp add: filter_id_conv)
  ultimately show ?thesis using n(1,2) by (simp add: poll_options_def)
qed

text \<open>
  Claim C6. Let the question be the value of the form field \<open>question\<close> (empty when the
  field is absent), the submitted options the values of the fields \<open>options\<close> in
  order, and the expiry the value of the field \<open>expiry\<close> (empty when absent); trimming
  is \<open>str.strip\<close>. A POST to \<open>/admin/create\<close> by an administrator succeeds (redirect
  to the dashboard) exactly when the trimmed question is non-empty, at least two of the
  submitted options are non-empty after trimming, and the expiry, when supplied, that is
  when it is non-empty after trimming, is accepted in its trimmed form by
  \<open>datetime.fromisoformat\<close>. Otherwise the answer is a redirect to the form and the
  database is unchanged: no poll row and no option row. On success one poll row is
  appended, with the trimmed question, the parsed expiry (none when no expiry was
  supplied) and the active flag; the appended option rows carry exactly the trimmed
  non-empty option texts, in order, all for the new poll; and in a database reached by
  serving requests these are all the options of the new poll.
\<close>

theorem create_poll_validation:
  assumes "current_user s sess = Inr (Some adm)" and "u_is_admin adm"
  shows
    "(resp (create_poll fi s sess POST f stamp) = Redirect EP_admin_dashboard
        \<longleftrightarrow> strip (form_get_default f ''question'' []) \<noteq> []
            \<and> 2 \<le> length (filter (\<lambda>t. strip t \<noteq> []) (form_getlist f ''options''))
            \<and> (strip (form_get_default f ''expiry'' []) \<noteq> [] \<longrightarrow>
                 fi (strip (form_get_default f ''expiry'' [])) \<noteq> None))
     \<and> (resp (create_poll fi s sess POST f stamp) \<noteq> Redirect EP_admin_dashboard \<longrightarrow>
          resp (create_poll fi s sess POST f stamp) = Redirect EP_create_poll
          \<and> db_after (create_poll fi s sess POST f stamp) = s)
     \<and> (resp (create_poll fi s sess POST f stamp) = Redirect EP_admin_dashboard \<longrightarrow>
          users (db_after (create_poll fi s sess POST f stamp)) = users s
          \<and> votes (db_after (create_poll fi s sess POST f stamp)) = votes s
          \<and> polls (db_after (create_poll fi s sess POST f stamp)) =
              polls s @
              [\<lparr>p_id = next_id (map p_id (polls s)),
                p_question = strip (form_get_default f ''question'' []),
                p_created_at = stamp,
                p_expiry = (if strip (form_get_default f ''expiry'' []) \<noteq> []
                            then fi (strip (form_get_default f ''expiry'' [])) else None),
                p_active = (form_get_default f ''active'' ''on'' = ''on'')\<rparr>]
          \<and> (\<exists>new. options (db_after (create_poll fi s sess POST f stamp)) = options s @ new
                \<and> map o_text new =
                    map strip (filter (\<lambda>t. strip t \<noteq> []) (form_getlist f ''options''))
                \<and> (\<forall>ob \<in> set new. o_poll_id ob = next_id (map p_id (polls s))))
          \<and> (reachable s \<longrightarrow>
                map o_text (poll_options (db_after (create_poll fi s sess POST f stamp))
                              (next_id (map p_id (polls s)))) =
                  map strip (filter (\<lambda>t. strip t \<noteq> []) (form_getlist f ''options''))))"
proof -
  let ?q = "strip (form_get_default f ''question'' [])"
  let ?os = "map strip (filter (\<lambda>t. strip t \<noteq> []) (form_getlist f ''options''))"
  let ?e = "strip (form_get_default f ''expiry'' [])"
  let ?a = "form_get_default f ''active'' ''on'' = ''on''"
  let ?valid = "?q \<noteq> [] \<and> 2 \<le> length (filter (\<lambda>t. strip t \<noteq> []) (form_getlist f ''options''))
            \<and> (?e \<noteq> [] \<longrightarrow> fi ?e \<noteq> None)"
  have cp: "create_poll fi s sess POST f stamp = create_poll_fn fi s POST f stamp"
    using assms by (simp add: create_poll_def admin_required_ok)
  show ?thesis
  proof (cases ?valid)
    case False
    then have "resp (create_poll_fn fi s POST f stamp) = Redirect EP_create_poll
        \<and> db_after (create_poll_fn fi s POST f stamp) = s"
      by (auto simp: create_poll_fn_def Let_def)
    with False show ?thesis unfolding cp by auto
  next
    case True
    then have r: "create_poll_fn fi s POST f stamp =
        finish (Redirect EP_admin_dashboard) [(''Poll created.'', ''success'')]
          (store_poll s ?q (if ?e \<noteq> [] then fi ?e else None) ?a stamp ?os)"
      by (auto simp: create_poll_fn_def Let_def)
    from store_poll_options[of s ?q "if ?e \<noteq> [] then fi ?e else None" ?a stamp ?os]
    have o: "\<exists>new. options (store_poll s ?q (if ?e \<noteq> [] then fi ?e else None) ?a stamp ?os)
                 = options s @ new
                \<and> map o_text new = ?os
                \<and> (\<forall>ob \<in> set new. o_poll_id ob = next_id (map p_id (polls s)))"
      by blast
    have p: "reachable s \<longrightarrow> map o_text (poll_options
               (store_poll s ?q (if ?e \<noteq> [] then fi ?e else None) ?a stamp ?os)
               (next_id (map p_id (polls s)))) = ?os"
      using poll_options_store_poll reachable_tables_ok by (simp add: tables_ok_def)
    from True o p show ?thesis unfolding cp r by simp
  qed
qed

theorem create_poll_validation_witness:
  "current_user run0 (Some 1) = Inr (Some (users run0 ! 0)) \<and> u_is_admin (users run0 ! 0)
   \<and> reachable run0
   \<and> strip ''  Best color? '' = ''Best color?''
   \<and> strip '' 1970-01-01T00:00:00 '' = ''1970-01-01T00:00:00''
   \<and> ex_fromisoformat ''1970-01-01T00:00:00'' = Some 0
   \<and> resp (create_poll ex_fromisoformat run0 (Some 1) POST
          [(''question'', ''  Best color? ''), (''options'', '' Red''), (''options'', ''  ''),
           (''options'', ''Blue ''), (''expiry'', '' 1970-01-01T00:00:00 '')] 100)
       = Redirect EP_admin_dashboard
   \<and> polls (db_after (create_poll ex_fromisoformat run0 (Some 1) POST
          [(''question'', ''  Best color? ''), (''options'', '' Red''), (''options'', ''  ''),
           (''options'', ''Blue ''), (''expiry'', '' 1970-01-01T00:00:00 '')] 100))
       = [\<lparr>p_id = 1, p_question = ''Best color?'', p_created_at = 100, p_expiry = Some 0,
           p_active = True\<rparr>]
   \<and> map o_text (poll_options (db_after (create_poll ex_fromisoformat run0 (Some 1) POST
          [(''question'', ''  Best color? ''), (''options'', '' Red''), (''options'', ''  ''),
           (''options'', ''Blue ''), (''expiry'', '' 1970-01-01T00:00:00 '')] 100)) 1)
       = [''Red'', ''Blue'']
   \<and> ex_fromisoformat ''tomorrow'' = None
   \<and> create_poll ex_fromisoformat run0 (Some 1) POST
        [(''question'', ''Best color?''), (''options'', ''Red''), (''options'', ''Blue''),
         (''expiry'', ''tomorrow'')] 100 =
       finish (Redirect EP_create_poll)
         [(''Invalid expiry format. Use the datetime picker.'', ''warning'')] run0
   \<and> strip [CHR '' '', CHR 0x09, CHR '' ''] = []
   \<and> create_poll ex_fromisoformat run0 (Some 1) POST
        [(''question'', [CHR '' '', CHR 0x09, CHR '' '']), (''options'', ''Red''),
         (''options'', ''Blue'')] 100 =
       finish (Redirect EP_create_poll)
         [(''Provide a question and at least two options.'', ''warning'')] run0
   \<and> create_poll ex_fromisoformat run0 (Some 1) POST
        [(''question'', ''Only one?''), (''options'', ''Yes''), (''options'', '' '')] 100 =
       finish (Redirect EP_create_poll)
         [(''Provide a question and at least two options.'', ''warning'')] run0"
proof -
  let ?f = "[(''question'', ''  Best color? ''), (''options'', '' Red''), (''options'', ''  ''),
           (''options'', ''Blue ''), (''expiry'', '' 1970-01-01T00:00:00 '')]"
  let ?g = "[(''question'', ''Best color?''), (''options'', ''Red''), (''options'', ''Blue''),
         (''expiry'', ''tomorrow'')]"
  let ?h = "[(''question'', [CHR '' '', CHR 0x09, CHR '' '']), (''options'', ''Red''),
         (''options'', ''Blue'')]"
  let ?k = "[(''question'', ''Only one?''), (''options'', ''Yes''), (''options'', '' '')]"
  have h1: "current_user run0 (Some 1) = Inr (Some (users run0 ! 0))" by code_simp
  have h2: "u_is_admin (users run0 ! 0)" by code_simp
  have h3: "reachable run0" unfolding run0_def by (rule reachable.r_start)
  have s1: "strip ''  Best color? '' = ''Best color?''"
    "strip '' 1970-01-01T00:00:00 '' = ''1970-01-01T00:00:00''"
    "ex_fromisoformat ''1970-01-01T00:00:00'' = Some 0"
    "ex_fromisoformat ''tomorrow'' = None"
    "strip [CHR '' '', CHR 0x09, CHR '' ''] = []"
    by code_simp+
  have f1: "strip (form_get_default ?f ''question'' []) = ''Best color?''"
    "filter (\<lambda>t. strip t \<noteq> []) (form_getlist ?f ''options'') = ['' Red'', ''Blue '']"
    "strip '' Red'' = ''Red''" "strip ''Blue '' = ''Blue''"
    "strip (form_get_default ?f ''expiry'' []) = ''1970-01-01T00:00:00''"
    "form_get_default ?f ''active'' ''on'' = ''on''"
    by code_simp+
  have g1: "strip (form_get_default ?g ''question'' []) = ''Best color?''"
    "filter (\<lambda>t. strip t \<noteq> []) (form_getlist ?g ''options'') = [''Red'', ''Blue'']"
    "strip (form_get_default ?g ''expiry'' []) = ''tomorrow''"
    by code_simp+
  have k1: "strip (form_get_default ?h ''question'' []) = []"
    "filter (\<lambda>t. strip t \<noteq> []) (form_getlist ?k ''options'') = [''Yes'']"
    by code_simp+
  have n: "next_id (map p_id (polls run0)) = 1" "polls run0 = []" "next_id [] = 1"
    by code_simp+
  note T = create_poll_validation[OF h1 h2, of ex_fromisoformat ?f 100]
  from T have a: "resp (create_poll ex_fromisoformat run0 (Some 1) POST ?f 100) =
      Redirect EP_admin_dashboard"
    by (simp add: f1 s1)
  from T a have b: "polls (db_after (create_poll ex_fromisoformat run0 (Some 1) POST ?f 100))
       = [\<lparr>p_id = 1, p_question = ''Best color?'', p_created_at = 100, p_expiry = Some 0,
           p_active = True\<rparr>]"
    by (simp add: f1 s1 n)
  from T a h3 have "map o_text (poll_options (db_after (create_poll ex_fromisoformat run0 (Some 1)
        POST ?f 100)) (next_id (map p_id (polls run0)))) =
        map strip (filter (\<lambda>t. strip t \<noteq> []) (form_getlist ?f ''options''))"
    by blast
  then have c: "map o_text (poll_options (db_after (create_poll ex_fromisoformat run0 (Some 1)
        POST ?f 100)) 1) = [''Red'', ''Blue'']"
    by (simp add: f1 n)
  have fin: "resp r = x \<and> db_after r = d \<Longrightarrow> flashes r = fl \<Longrightarrow> r = finish x fl d"
    for r :: result and x fl d
    by (cases r) (simp add: finish_def)
  from create_poll_validation[OF h1 h2, of ex_fromisoformat ?g 100]
  have "resp (create_poll ex_fromisoformat run0 (Some 1) POST ?g 100) = Redirect EP_create_poll
      \<and> db_after (create_poll ex_fromisoformat run0 (Some 1) POST ?g 100) = run0"
    by (simp add: g1 s1)
  moreover have "flashes (create_poll ex_fromisoformat run0 (Some 1) POST ?g 100) =
      [(''Invalid expiry format. Use the datetime picker.'', ''warning'')]" by code_simp
  ultimately have d: "create_poll ex_fromisoformat run0 (Some 1) POST ?g 100 =
       finish (Redirect EP_create_poll)
         [(''Invalid expiry format. Use the datetime picker.'', ''warning'')] run0"
    by (rule fin)
  from create_poll_validation[OF h1 h2, of ex_fromisoformat ?h 100]
  have "resp (create_poll ex_fromisoformat run0 (Some 1) POST ?h 100) = Redirect EP_create_poll
      \<and> db_after (create_poll ex_fromisoformat run0 (Some 1) POST ?h 100) = run0"
    by (simp add: k1)
  moreover have "flashes (create_poll ex_fromisoformat run0 (Some 1) POST ?h 100) =
      [(''Provide a question and at least two options.'', ''warning'')]" by code_simp
  ultimately have e: "create_poll ex_fromisoformat run0 (Some 1) POST ?h 100 =
       finish (Redirect EP_create_poll)
         [(''Provide a question and at least two options.'', ''warning'')] run0"
    by (rule fin)
  from create_poll_validation[OF h1 h2, of ex_fromisoformat ?k 100]
  have "resp (create_poll ex_fromisoformat run0 (Some 1) POST ?k 100) = Redirect EP_create_poll
      \<and> db_after (create_poll ex_fromisoformat run0 (Some 1) POST ?k 100) = run0"
    by (simp add: k1)
  moreover have "flashes (create_poll ex_fromisoformat run0 (Some 1) POST ?k 100) =
      [(''Provide a question and at least two options.'', ''warning'')]" by code_simp
  ultimately have g: "create_poll ex_fromisoformat run0 (Some 1) POST ?k 100 =
       finish (Redirect EP_create_poll)
         [(''Provide a question and at least two options.'', ''warning'')] run0"
    by (rule fin)
  from h1 h2 h3 s1 a b c d e g show ?thesis by simp
qed

section \<open>Results: totals and percentages\<close>








section \<open>Listings\<close>

lemma order_by_created_desc_mset [simp]: "mset (order_by_created_desc ps) = mset ps"
  by (simp add: order_by_created_desc_def)

lemma order_by_created_desc_sorted:
  "sorted_wrt (\<lambda>a b. p_created_at b \<le> p_created_at a) (order_by_created_desc ps)"
proof -
  have "sorted (map (\<lambda>p. - p_created_at p) (order_by_created_desc ps))"
    unfolding order_by_created_desc_def by (rule sorted_sort_key)
  then show ?thesis by (simp add: sorted_map)
qed

text \<open>
  Claim C8. For a session whose user lookup succeeds, \<open>index\<close> hands the template the
  polls whose active flag is set, expired ones included, ordered by creation time
  descending, together with the current time; the page, with the template's filter as
  the spec describes it (\<open>index_listing\<close>), lists exactly the polls that are active and
  not expired at that time, each once, in that order. For an administrator,
  \<open>admin_dashboard\<close> lists all polls, each once, ordered by creation time descending.
\<close>

theorem listings_filtered_and_ordered:
  "(current_user s sess = Inr cu \<longrightarrow>
      (\<exists>ps. resp (index s sess now) = Render (IndexPage ps now cu)
          \<and> mset ps = mset (filter p_active (polls s))
          \<and> sorted_wrt (\<lambda>a b. p_created_at b \<le> p_created_at a) ps)
      \<and> mset (index_listing (index s sess now)) =
          mset (filter (\<lambda>p. p_active p \<and> \<not> is_expired p now) (polls s))
      \<and> sorted_wrt (\<lambda>a b. p_created_at b \<le> p_created_at a) (index_listing (index s sess now)))
   \<and> (current_user s sess = Inr (Some adm) \<and> u_is_admin adm \<longrightarrow>
      (\<exists>ps. resp (admin_dashboard s sess) = Render (AdminPage ps)
          \<and> mset ps = mset (polls s)
          \<and> sorted_wrt (\<lambda>a b. p_created_at b \<le> p_created_at a) ps))"
proof -
  have 1: "(\<exists>ps. resp (index s sess now) = Render (IndexPage ps now cu)
          \<and> mset ps = mset (filter p_active (polls s))
          \<and> sorted_wrt (\<lambda>a b. p_created_at b \<le> p_created_at a) ps)
      \<and> mset (index_listing (index s sess now)) =
          mset (filter (\<lambda>p. p_active p \<and> \<not> is_expired p now) (polls s))
      \<and> sorted_wrt (\<lambda>a b. p_created_at b \<le> p_created_at a) (index_listing (index s sess now))"
    if cu: "current_user s sess = Inr cu"
  proof -
    let ?ps = "order_by_created_desc (filter p_active (polls s))"
    have r: "index s sess now = finish (Render (IndexPage ?ps now cu)) [] s"
      by (simp add: index_def cu Let_def)
    have l: "index_listing (index s sess now) = filter (\<lambda>p. \<not> is_expired p now) ?ps"
      by (simp add: index_listing_def r)
    have a: "mset ?ps = mset (filter p_active (polls s))" by simp
    have b: "sorted_wrt (\<lambda>a b. p_created_at b \<le> p_created_at a) ?ps"
      by (rule order_by_created_desc_sorted)
    have c: "mset (filter (\<lambda>p. \<not> is_expired p now) ?ps) =
          mset (filter (\<lambda>p. p_active p \<and> \<not> is_expired p now) (polls s))"
      by (simp add: filter_filter_mset conj_commute)
    have d: "sorted_wrt (\<lambda>a b. p_created_at b \<le> p_created_at a)
        (filter (\<lambda>p. \<not> is_expired p now) ?ps)"
      using b by (rule sorted_wrt_filter)
    from a b c d show ?thesis unfolding l by (simp add: r)
  qed
  have 2: "\<exists>ps. resp (admin_dashboard s sess) = Render (AdminPage ps)
          \<and> mset ps = mset (polls s)
          \<and> sorted_wrt (\<lambda>a b. p_created_at b \<le> p_created_at a) ps"
    if "current_user s sess = Inr (Some adm) \<and> u_is_admin adm"
    using that order_by_created_desc_sorted[of "polls s"]
    by (simp add: admin_dashboard_def admin_dashboard_fn_def admin_required_ok)
  from 1 2 show ?thesis by blast
qed

theorem listings_filtered_and_ordered_witness:
  "current_user ex_db (Some 1) = Inr (Some (users ex_db ! 0)) \<and> u_is_admin (users ex_db ! 0)
   \<and> filter (\<lambda>p. p_active p \<and> \<not> is_expired p 500) (polls ex_db) = [polls ex_db ! 0]
   \<and> mset (index_listing (index ex_db (Some 1) 500)) = {#polls ex_db ! 0#}
   \<and> index_listing (index ex_db (Some 1) 500) = [polls ex_db ! 0]
   \<and> resp (admin_dashboard ex_db (Some 1)) =
       Render (AdminPage [polls ex_db ! 2, polls ex_db ! 1, polls ex_db ! 0])"
proof -
  have h1: "current_user ex_db (Some 1) = Inr (Some (users ex_db ! 0))" by code_simp
  have h2: "u_is_admin (users ex_db ! 0)" by code_simp
  have h3: "filter (\<lambda>p. p_active p \<and> \<not> is_expired p 500) (polls ex_db) = [polls ex_db ! 0]"
    by code_simp
  have h4: "index_listing (index ex_db (Some 1) 500) = [polls ex_db ! 0]" by code_simp
  have h5: "resp (admin_dashboard ex_db (Some 1)) =
       Render (AdminPage [polls ex_db ! 2, polls ex_db ! 1, polls ex_db ! 0])" by code_simp
  from listings_filtered_and_ordered[of ex_db "Some 1" "Some (users ex_db ! 0)" 500] h1
  have "mset (index_listing (index ex_db (Some 1) 500)) =
          mset (filter (\<lambda>p. p_active p \<and> \<not> is_expired p 500) (polls ex_db))"
    by blast
  then have "mset (index_listing (index ex_db (Some 1) 500)) = {#polls ex_db ! 0#}"
    by (simp only: h3) simp
  with h1 h2 h3 h4 h5 show ?thesis by blast
qed

section \<open>CSV export\<close>

lemma zip_map_triple:
  "zip xs (zip (map f xs) (map g xs)) = map (\<lambda>x. (x, f x, g x)) xs"
  by (induction xs) simp_all

text \<open>
  Claim C9. The rows \<open>export_poll_csv\<close> writes for a poll are the header
  \<open>poll_id,poll_question,option_id,option_text,votes\<close> followed by exactly one row per
  option of the poll, in the order of \<open>poll.options\<close>, which is the order of the labels
  and counts of \<open>admin_results\<close>; the row of an option holds the poll's key and question,
  the option's key, the label of the option and its count as \<open>admin_results\<close> computes
  them. For an administrator and an existing poll the response is the attachment made
  of these rows as \<open>csv.writer\<close> writes them.
\<close>

theorem export_csv_rows:
  "export_rows s pl =
     csv_header #
     map (\<lambda>(ob, label, c).
            [CInt (p_id pl), CStr (p_question pl), CInt (o_id ob), CStr label, CInt (int c)])
       (zip (poll_options s (p_id pl))
          (zip (result_labels s (p_id pl)) (result_votes s (p_id pl))))
   \<and> length (export_rows s pl) = 1 + length (poll_options s (p_id pl))
   \<and> writerow csv_header =
       ''poll_id,poll_question,option_id,option_text,votes'' @ [CHR 0x0D, CHR 0x0A]
   \<and> (current_user s sess = Inr (Some adm) \<and> u_is_admin adm
        \<and> query_get p_id (polls s) poll_id = Inr (Some pl) \<longrightarrow>
        export_poll_csv s sess poll_id =
          finish
            (Attachment (concat (map writerow (export_rows s pl))) ''text/csv''
               (''attachment; filename=poll_'' @ py_str (p_id pl) @ ''_results.csv''))
            [] s)"
proof -
  have 1: "export_rows s pl =
     csv_header #
     map (\<lambda>(ob, label, c).
            [CInt (p_id pl), CStr (p_question pl), CInt (o_id ob), CStr label, CInt (int c)])
       (zip (poll_options s (p_id pl))
          (zip (result_labels s (p_id pl)) (result_votes s (p_id pl))))"
    by (simp add: export_rows_def result_labels_def result_votes_def zip_map_triple)
  have 2: "length (export_rows s pl) = 1 + length (poll_options s (p_id pl))"
    by (simp add: export_rows_def)
  have 3: "writerow csv_header =
       ''poll_id,poll_question,option_id,option_text,votes'' @ [CHR 0x0D, CHR 0x0A]"
    by code_simp
  have 4: "export_poll_csv s sess poll_id =
          finish
            (Attachment (concat (map writerow (export_rows s pl))) ''text/csv''
               (''attachment; filename=poll_'' @ py_str (p_id pl) @ ''_results.csv''))
            [] s"
    if "current_user s sess = Inr (Some adm) \<and> u_is_admin adm
        \<and> query_get p_id (polls s) poll_id = Inr (Some pl)"
    using that by (simp add: export_poll_csv_def export_poll_csv_fn_def admin_required_ok)
  from 1 2 3 4 show ?thesis by blast
qed

theorem export_csv_rows_witness:
  "current_user ex_db (Some 1) = Inr (Some (users ex_db ! 0)) \<and> u_is_admin (users ex_db ! 0)
   \<and> query_get p_id (polls ex_db) 1 = Inr (Some (polls ex_db ! 0))
   \<and> result_labels ex_db 1 = [''Red'', ''Blue''] \<and> result_votes ex_db 1 = [1, 1]
   \<and> concat (map writerow (export_rows ex_db (polls ex_db ! 0))) =
       ''poll_id,poll_question,option_id,option_text,votes'' @ [CHR 0x0D, CHR 0x0A]
       @ ''1,Best color?,1,Red,1'' @ [CHR 0x0D, CHR 0x0A]
       @ ''1,Best color?,2,Blue,1'' @ [CHR 0x0D, CHR 0x0A]
   \<and> resp (export_poll_csv ex_db (Some 1) 1) =
       Attachment
         (''poll_id,poll_question,option_id,option_text,votes'' @ [CHR 0x0D, CHR 0x0A]
          @ ''1,Best color?,1,Red,1'' @ [CHR 0x0D, CHR 0x0A]
          @ ''1,Best color?,2,Blue,1'' @ [CHR 0x0D, CHR 0x0A])
         ''text/csv'' ''attachment; filename=poll_1_results.csv''"
proof -
  have h1: "current_user ex_db (Some 1) = Inr (Some (users ex_db ! 0))" by code_simp
  have h2: "u_is_admin (users ex_db ! 0)" by code_simp
  have h3: "query_get p_id (polls ex_db) 1 = Inr (Some (polls ex_db ! 0))" by code_simp
  have h4: "result_labels ex_db 1 = [''Red'', ''Blue'']" "result_votes ex_db 1 = [1, 1]"
    by code_simp+
  have h5: "concat (map writerow (export_rows ex_db (polls ex_db ! 0))) =
       ''poll_id,poll_question,option_id,option_text,votes'' @ [CHR 0x0D, CHR 0x0A]
       @ ''1,Best color?,1,Red,1'' @ [CHR 0x0D, CHR 0x0A]
       @ ''1,Best color?,2,Blue,1'' @ [CHR 0x0D, CHR 0x0A]"
    by code_simp
  have h6: "py_str (p_id (polls ex_db ! 0)) = ''1''" by code_simp
  from export_csv_rows[of ex_db "polls ex_db ! 0" "Some 1" "users ex_db ! 0" 1] h1 h2 h3
  have "export_poll_csv ex_db (Some 1) 1 =
          finish
            (Attachment (concat (map writerow (export_rows ex_db (polls ex_db ! 0)))) ''text/csv''
               (''attachment; filename=poll_'' @ py_str (p_id (polls ex_db ! 0)) @ ''_results.csv''))
            [] ex_db"
    by blast
  then have "resp (export_poll_csv ex_db (Some 1) 1) =
       Attachment
         (''poll_id,poll_question,option_id,option_text,votes'' @ [CHR 0x0D, CHR 0x0A]
          @ ''1,Best color?,1,Red,1'' @ [CHR 0x0D, CHR 0x0A]
          @ ''1,Best color?,2,Blue,1'' @ [CHR 0x0D, CHR 0x0A])
         ''text/csv'' ''attachment; filename=poll_1_results.csv''"
    by (simp add: h5 h6)
  with h1 h2 h3 h4 h5 show ?thesis by blast
qed

section \<open>The option field of a vote request\<close>

text \<open>
  Claim C10 is about lines 228-235, which a POST reaches when the user is logged in, the
  poll exists and is open, and the user has no vote on it. There, when the option field
  is absent or empty, the answer is the flash ``Choose an option.'' with a redirect back
  to the poll page, and the database is unchanged, as the claim says. But for every
  non-empty value of the field that \<open>int\<close> rejects, line 232 raises ValueError, which
  nothing catches: the request ends in that exception, with nothing written, and not in
  a response. The claim's second half, that the handler never raises, does not hold of
  the code.
\<close>

theorem vote_option_not_an_integer:
  assumes "\<not> falsy_session sess"
    and "current_user s sess = Inr (Some usr)"
    and "query_get p_id (polls s) poll_id = Inr (Some pl)"
    and "p_active pl" and "\<not> is_expired pl now"
    and "\<not> (\<exists>v \<in> set (votes s). v_user_id v = u_id usr \<and> v_poll_id v = p_id pl)"
  shows
    "(form_get f ''option'' = None \<or> form_get f ''option'' = Some [] \<longrightarrow>
        poll_detail s sess POST f poll_id now stamp fault =
          finish (Redirect (EP_poll_detail (p_id pl))) [flash_choose] s)
     \<and> (\<forall>raw. form_get f ''option'' = Some raw \<and> raw \<noteq> [] \<and> py_int raw = None \<longrightarrow>
          poll_detail s sess POST f poll_id now stamp fault = finish (Raised ValueError) [] s)"
proof -
  have pd: "poll_detail s sess POST f poll_id now stamp fault =
      poll_detail_fn s sess POST f poll_id now stamp fault"
    using assms(1) by (simp add: poll_detail_def login_required_ok)
  from assms(6)
  have nx: "find (\<lambda>v. v_user_id v = u_id usr \<and> v_poll_id v = p_id pl) (votes s) = None"
    by (auto simp: find_None_iff)
  show ?thesis
    using assms(4,5)
    by (auto simp: pd poll_detail_fn_def poll_detail_check_def assms(2,3) Let_def nx)
qed

theorem vote_option_not_an_integer_witness:
  "\<not> falsy_session (Some 1)
   \<and> current_user ex_db (Some 1) = Inr (Some (users ex_db ! 0))
   \<and> query_get p_id (polls ex_db) 1 = Inr (Some (polls ex_db ! 0))
   \<and> p_active (polls ex_db ! 0) \<and> \<not> is_expired (polls ex_db ! 0) 500
   \<and> \<not> (\<exists>v \<in> set (votes ex_db). v_user_id v = 1 \<and> v_poll_id v = 1)
   \<and> form_get [] ''option'' = None
   \<and> poll_detail ex_db (Some 1) POST [] 1 500 501 False =
       finish (Redirect (EP_poll_detail 1)) [flash_choose] ex_db
   \<and> form_get [(''option'', ''abc'')] ''option'' = Some ''abc'' \<and> py_int ''abc'' = None
   \<and> poll_detail ex_db (Some 1) POST [(''option'', ''abc'')] 1 500 501 False =
       finish (Raised ValueError) [] ex_db"
proof -
  have h1: "\<not> falsy_session (Some 1)" by code_simp
  have h2: "current_user ex_db (Some 1) = Inr (Some (users ex_db ! 0))" by code_simp
  have h3: "query_get p_id (polls ex_db) 1 = Inr (Some (polls ex_db ! 0))" by code_simp
  have h4: "p_active (polls ex_db ! 0)" by code_simp
  have h5: "\<not> is_expired (polls ex_db ! 0) 500" by code_simp
  have h9: "u_id (users ex_db ! 0) = 1" "p_id (polls ex_db ! 0) = 1" by code_simp+
  have h6: "\<not> (\<exists>v \<in> set (votes ex_db). v_user_id v = 1 \<and> v_poll_id v = 1)" by code_simp
  then have h6': "\<not> (\<exists>v \<in> set (votes ex_db). v_user_id v = u_id (users ex_db ! 0)
        \<and> v_poll_id v = p_id (polls ex_db ! 0))"
    by (simp add: h9)
  have h7: "form_get [] ''option'' = None" by code_simp
  have h8: "form_get [(''option'', ''abc'')] ''option'' = Some ''abc''" "py_int ''abc'' = None"
    by code_simp+
  note A = vote_option_not_an_integer[OF h1 h2 h3 h4 h5 h6', of "[]" 501 False,
      THEN conjunct1, rule_format]
  have a: "poll_detail ex_db (Some 1) POST [] 1 500 501 False =
       finish (Redirect (EP_poll_detail (p_id (polls ex_db ! 0)))) [flash_choose] ex_db"
    by (rule A) (simp add: h7)
  note B = vote_option_not_an_integer[OF h1 h2 h3 h4 h5 h6', of "[(''option'', ''abc'')]" 501 False,
      THEN conjunct2, rule_format]
  have b: "poll_detail ex_db (Some 1) POST [(''option'', ''abc'')] 1 500 501 False =
       finish (Raised ValueError) [] ex_db"
    by (rule B[of "''abc''"]) (simp add: h8)
  from h1 h2 h3 h4 h5 h6 h7 h8 h9 a b show ?thesis by simp
qed

end
